theory Spec2Isabelle
  imports Main "HOL-Library.Sublist" "HOL-Library.Char_ord" "HOL-Library.List_Lexorder"
begin

section \<open>Python values\<close>

text \<open>
  The two modules under verification are \<^verbatim>\<open>rule_based_profiler/types/domain.py\<close> (the
  \<^verbatim>\<open>Domain\<close> value object) and \<^verbatim>\<open>data_context/store/metric_store.py\<close> (the
  \<^verbatim>\<open>MetricStore\<close> and \<^verbatim>\<open>EvaluationParameterStore\<close>). Both handle untyped Python
  values, so the embedding starts with a datatype of the values they see.

  A \<^verbatim>\<open>str\<close> is a \<open>string\<close>; its characters stand for the code points below 256.
  A \<^verbatim>\<open>dict\<close> is an association list in insertion order; its keys are strings, as the
  annotations \<^verbatim>\<open>Dict[str, Any]\<close> of the source say, and distinct (\<open>distinct_keys\<close> below).
  \<open>PObject c s\<close> is any other object (a file handle, say): \<open>c\<close> is the name of its class
  and \<open>s\<close> what \<^verbatim>\<open>str()\<close> prints for it. Floating point numbers are not modelled.
\<close>

datatype SemanticDomainTypes =
    NUMERIC | TEXT | LOGIC | DATETIME | BINARY | CURRENCY | IDENTIFIER | MISCELLANEOUS | UNKNOWN

text \<open>
  Modelled from the spec: the enumeration \<^verbatim>\<open>MetricDomainTypes\<close> is imported from
  \<^verbatim>\<open>execution_engine\<close>, which is not among the sources; the members are the domain kinds the
  spec lists (table, column, column-pair, multicolumn), named and valued after the convention
  of \<^verbatim>\<open>SemanticDomainTypes\<close> (upper-case name, lower-case value).
\<close>

datatype MetricDomainTypes = TABLE | COLUMN | COLUMN_PAIR | MULTICOLUMN

datatype pyval =
    PNone
  | PBool bool
  | PInt int
  | PStr string
  | PList "pyval list"
  | PTuple "pyval list"
  | PDict "(string \<times> pyval) list"
  | PMetricDomainType MetricDomainTypes
  | PSemanticDomainType SemanticDomainTypes
  | PObject string string

type_synonym pydict = "(string \<times> pyval) list"

datatype error =
    ValueError string
  | TypeError string
  | KeyError string
  | AttributeError string
  | JSONDecodeError string
  | InvalidExpectationConfigurationError string
  | ClassInstantiationError string
  | FloatNotModelled

fun SemanticDomainTypes_value :: "SemanticDomainTypes \<Rightarrow> string" where
  "SemanticDomainTypes_value NUMERIC = ''numeric''"
| "SemanticDomainTypes_value TEXT = ''text''"
| "SemanticDomainTypes_value LOGIC = ''logic''"
| "SemanticDomainTypes_value DATETIME = ''datetime''"
| "SemanticDomainTypes_value BINARY = ''binary''"
| "SemanticDomainTypes_value CURRENCY = ''currency''"
| "SemanticDomainTypes_value IDENTIFIER = ''identifier''"
| "SemanticDomainTypes_value MISCELLANEOUS = ''miscellaneous''"
| "SemanticDomainTypes_value UNKNOWN = ''unknown''"

fun SemanticDomainTypes_name :: "SemanticDomainTypes \<Rightarrow> string" where
  "SemanticDomainTypes_name NUMERIC = ''NUMERIC''"
| "SemanticDomainTypes_name TEXT = ''TEXT''"
| "SemanticDomainTypes_name LOGIC = ''LOGIC''"
| "SemanticDomainTypes_name DATETIME = ''DATETIME''"
| "SemanticDomainTypes_name BINARY = ''BINARY''"
| "SemanticDomainTypes_name CURRENCY = ''CURRENCY''"
| "SemanticDomainTypes_name IDENTIFIER = ''IDENTIFIER''"
| "SemanticDomainTypes_name MISCELLANEOUS = ''MISCELLANEOUS''"
| "SemanticDomainTypes_name UNKNOWN = ''UNKNOWN''"

definition SemanticDomainTypes_members :: "SemanticDomainTypes list" where
  "SemanticDomainTypes_members =
     [NUMERIC, TEXT, LOGIC, DATETIME, BINARY, CURRENCY, IDENTIFIER, MISCELLANEOUS, UNKNOWN]"

fun MetricDomainTypes_value :: "MetricDomainTypes \<Rightarrow> string" where
  "MetricDomainTypes_value TABLE = ''table''"
| "MetricDomainTypes_value COLUMN = ''column''"
| "MetricDomainTypes_value COLUMN_PAIR = ''column_pair''"
| "MetricDomainTypes_value MULTICOLUMN = ''multicolumn''"

fun MetricDomainTypes_name :: "MetricDomainTypes \<Rightarrow> string" where
  "MetricDomainTypes_name TABLE = ''TABLE''"
| "MetricDomainTypes_name COLUMN = ''COLUMN''"
| "MetricDomainTypes_name COLUMN_PAIR = ''COLUMN_PAIR''"
| "MetricDomainTypes_name MULTICOLUMN = ''MULTICOLUMN''"

definition MetricDomainTypes_members :: "MetricDomainTypes list" where
  "MetricDomainTypes_members = [TABLE, COLUMN, COLUMN_PAIR, MULTICOLUMN]"

subsection \<open>\<^verbatim>\<open>repr\<close>, \<^verbatim>\<open>str\<close> and \<^verbatim>\<open>type\<close>\<close>

definition dquote :: char where "dquote = CHR 0x22"
definition squote :: char where "squote = CHR 0x27"
definition backslash :: char where "backslash = CHR 0x5C"

definition digit_char :: "nat \<Rightarrow> char" where
  "digit_char d = ''0123456789abcdef'' ! (d mod 16)"

fun show_nat :: "nat \<Rightarrow> string" where
  "show_nat n = (if n < 10 then [digit_char n] else show_nat (n div 10) @ [digit_char (n mod 10)])"

declare show_nat.simps [simp del]

definition show_int :: "int \<Rightarrow> string" where
  "show_int i = (if i < 0 then CHR ''-'' # show_nat (nat (- i)) else show_nat (nat i))"

definition hex2 :: "char \<Rightarrow> string" where
  "hex2 c = [digit_char (of_char c div 16), digit_char (of_char c mod 16)]"

text \<open>
  \<^verbatim>\<open>repr\<close> of a \<^verbatim>\<open>str\<close>: single quotes unless the text holds a single quote and no
  double quote; the quote and the backslash escaped, tab, newline and carriage return by
  letter, every other unprintable character as \<^verbatim>\<open>\xhh\<close>.
\<close>

definition repr_char :: "char \<Rightarrow> char \<Rightarrow> string" where
  "repr_char q c =
     (if c = q \<or> c = backslash then [backslash, c]
      else if c = CHR 0x09 then [backslash, CHR ''t'']
      else if c = CHR 0x0A then [backslash, CHR ''n'']
      else if c = CHR 0x0D then [backslash, CHR ''r'']
      else if (of_char c :: nat) < 32 \<or> (of_char c :: nat) = 127
                \<or> (128 \<le> (of_char c :: nat) \<and> (of_char c :: nat) \<le> 160)
                \<or> (of_char c :: nat) = 173
           then [backslash, CHR ''x''] @ hex2 c
      else [c])"

definition py_repr_str :: "string \<Rightarrow> string" where
  "py_repr_str s =
     (let q = (if squote \<in> set s \<and> dquote \<notin> set s then dquote else squote)
      in q # concat (map (repr_char q) s) @ [q])"

fun join :: "'a list \<Rightarrow> 'a list list \<Rightarrow> 'a list" where
  "join sep [] = []"
| "join sep [x] = x"
| "join sep (x # y # ys) = x @ sep @ join sep (y # ys)"

fun py_repr :: "pyval \<Rightarrow> string" where
  "py_repr PNone = ''None''"
| "py_repr (PBool b) = (if b then ''True'' else ''False'')"
| "py_repr (PInt i) = show_int i"
| "py_repr (PStr s) = py_repr_str s"
| "py_repr (PList xs) = ''['' @ join '', '' (map py_repr xs) @ '']''"
| "py_repr (PTuple xs) =
     (case xs of [x] \<Rightarrow> ''('' @ py_repr x @ '',)''
      | _ \<Rightarrow> ''('' @ join '', '' (map py_repr xs) @ '')'')"
| "py_repr (PDict kvs) =
     ''{'' @ join '', '' (map (\<lambda>(k, v). py_repr_str k @ '': '' @ py_repr v) kvs) @ ''}''"
| "py_repr (PMetricDomainType t) =
     ''<MetricDomainTypes.'' @ MetricDomainTypes_name t @ '': ''
       @ py_repr_str (MetricDomainTypes_value t) @ ''>''"
| "py_repr (PSemanticDomainType t) =
     ''<SemanticDomainTypes.'' @ SemanticDomainTypes_name t @ '': ''
       @ py_repr_str (SemanticDomainTypes_value t) @ ''>''"
| "py_repr (PObject c s) = s"

fun py_str :: "pyval \<Rightarrow> string" where
  "py_str (PStr s) = s"
| "py_str (PMetricDomainType t) = ''MetricDomainTypes.'' @ MetricDomainTypes_name t"
| "py_str (PSemanticDomainType t) = ''SemanticDomainTypes.'' @ SemanticDomainTypes_name t"
| "py_str v = py_repr v"

definition class_str :: "string \<Rightarrow> string" where
  "class_str c = ''<class '' @ [squote] @ c @ [squote] @ ''>''"

fun py_type_str :: "pyval \<Rightarrow> string" where
  "py_type_str PNone = class_str ''NoneType''"
| "py_type_str (PBool b) = class_str ''bool''"
| "py_type_str (PInt i) = class_str ''int''"
| "py_type_str (PStr s) = class_str ''str''"
| "py_type_str (PList xs) = class_str ''list''"
| "py_type_str (PTuple xs) = class_str ''tuple''"
| "py_type_str (PDict kvs) = class_str ''dict''"
| "py_type_str (PMetricDomainType t) = ''<enum '' @ [squote] @ ''MetricDomainTypes'' @ [squote] @ ''>''"
| "py_type_str (PSemanticDomainType t) = ''<enum '' @ [squote] @ ''SemanticDomainTypes'' @ [squote] @ ''>''"
| "py_type_str (PObject c s) = class_str c"

text \<open>Truthiness, as \<^verbatim>\<open>if value:\<close> tests it.\<close>

fun truthy :: "pyval \<Rightarrow> bool" where
  "truthy PNone = False"
| "truthy (PBool b) = b"
| "truthy (PInt i) = (i \<noteq> 0)"
| "truthy (PStr s) = (s \<noteq> [])"
| "truthy (PList xs) = (xs \<noteq> [])"
| "truthy (PTuple xs) = (xs \<noteq> [])"
| "truthy (PDict kvs) = (kvs \<noteq> [])"
| "truthy (PMetricDomainType t) = True"
| "truthy (PSemanticDomainType t) = True"
| "truthy (PObject c s) = True"

text \<open>\<^verbatim>\<open>d[k] = v\<close>: an existing key keeps its place, a new one goes last.\<close>

fun dict_setitem :: "pydict \<Rightarrow> string \<Rightarrow> pyval \<Rightarrow> pydict" where
  "dict_setitem [] k v = [(k, v)]"
| "dict_setitem ((k', v') # kvs) k v =
     (if k' = k then (k, v) # kvs else (k', v') # dict_setitem kvs k v)"

text \<open>\<^verbatim>\<open>d.get(k, default)\<close>.\<close>

definition dict_get :: "pydict \<Rightarrow> string \<Rightarrow> pyval \<Rightarrow> pyval" where
  "dict_get d k dflt = (case map_of d k of None \<Rightarrow> dflt | Some v \<Rightarrow> v)"

text \<open>The representation invariant of a Python value: the keys of every \<^verbatim>\<open>dict\<close> are distinct.\<close>

fun distinct_keys :: "pyval \<Rightarrow> bool" where
  "distinct_keys (PList xs) = list_all distinct_keys xs"
| "distinct_keys (PTuple xs) = list_all distinct_keys xs"
| "distinct_keys (PDict kvs) =
     (distinct (map fst kvs) \<and> list_all (\<lambda>(k, v). distinct_keys v) kvs)"
| "distinct_keys v = True"


section \<open>Errors as values\<close>

text \<open>
  A function that can raise returns \<open>error + 'a\<close>, \<open>Inl\<close> the exception. \<open>map_err\<close> is a
  loop (or comprehension) over a list whose body can raise: the first exception leaves it.
\<close>

fun map_err :: "('a \<Rightarrow> error + 'b) \<Rightarrow> 'a list \<Rightarrow> error + 'b list" where
  "map_err f [] = Inr []"
| "map_err f (x # xs) =
     (case f x of
        Inl e \<Rightarrow> Inl e
      | Inr y \<Rightarrow> (case map_err f xs of Inl e \<Rightarrow> Inl e | Inr ys \<Rightarrow> Inr (y # ys)))"

text \<open>
  Calling an \<^verbatim>\<open>Enum\<close> class looks a member up by value and raises \<^verbatim>\<open>ValueError\<close>
  (\<^verbatim>\<open>'x' is not a valid MetricDomainTypes\<close>) when there is none.
\<close>

definition SemanticDomainTypes_call :: "string \<Rightarrow> error + SemanticDomainTypes" where
  "SemanticDomainTypes_call s =
     (case find (\<lambda>t. SemanticDomainTypes_value t = s) SemanticDomainTypes_members of
        Some t \<Rightarrow> Inr t
      | None \<Rightarrow> Inl (ValueError (py_repr_str s @ '' is not a valid SemanticDomainTypes'')))"

definition MetricDomainTypes_call :: "string \<Rightarrow> error + MetricDomainTypes" where
  "MetricDomainTypes_call s =
     (case find (\<lambda>t. MetricDomainTypes_value t = s) MetricDomainTypes_members of
        Some t \<Rightarrow> Inr t
      | None \<Rightarrow> Inl (ValueError (py_repr_str s @ '' is not a valid MetricDomainTypes'')))"

text \<open>\<^verbatim>\<open>str.lower()\<close> on the code points below 256.\<close>

definition char_lower :: "char \<Rightarrow> char" where
  "char_lower c =
     (let n = (of_char c :: nat)
      in if (65 \<le> n \<and> n \<le> 90) \<or> (192 \<le> n \<and> n \<le> 222 \<and> n \<noteq> 215) then char_of (n + 32) else c)"

definition str_lower :: "string \<Rightarrow> string" where
  "str_lower s = map char_lower s"

section \<open>The utilities the two modules import\<close>

text \<open>
  Modelled from the spec: \<^verbatim>\<open>filter_properties_dict\<close> of \<^verbatim>\<open>great_expectations.util\<close> is not
  among the sources. Both modules call it with \<^verbatim>\<open>clean_falsy=True\<close>; the spec describes the
  effect as stripping the falsy (empty or null) top-level entries. Numbers and booleans are
  neither empty nor null and stay.
\<close>

fun null_or_empty :: "pyval \<Rightarrow> bool" where
  "null_or_empty PNone = True"
| "null_or_empty (PStr s) = (s = [])"
| "null_or_empty (PList xs) = (xs = [])"
| "null_or_empty (PTuple xs) = (xs = [])"
| "null_or_empty (PDict kvs) = (kvs = [])"
| "null_or_empty v = False"

definition filter_properties_dict :: "pydict \<Rightarrow> pydict" where
  "filter_properties_dict properties = filter (\<lambda>(k, v). \<not> null_or_empty v) properties"

text \<open>
  Modelled from the spec: \<^verbatim>\<open>deep_filter_properties_iterable\<close> of \<^verbatim>\<open>great_expectations.util\<close>
  is not among the sources; the spec calls it a deep clean, the removal of nested null
  and empty values.
\<close>

fun deep_filter_properties_iterable :: "pyval \<Rightarrow> pyval" where
  "deep_filter_properties_iterable (PDict kvs) =
     PDict (filter (\<lambda>(k, v). \<not> null_or_empty v)
              (map (\<lambda>(k, v). (k, deep_filter_properties_iterable v)) kvs))"
| "deep_filter_properties_iterable (PList xs) =
     PList (filter (\<lambda>v. \<not> null_or_empty v) (map deep_filter_properties_iterable xs))"
| "deep_filter_properties_iterable (PTuple xs) =
     PTuple (filter (\<lambda>v. \<not> null_or_empty v) (map deep_filter_properties_iterable xs))"
| "deep_filter_properties_iterable v = v"

text \<open>
  Modelled from the spec: \<^verbatim>\<open>convert_to_json_serializable\<close> and \<^verbatim>\<open>ensure_json_serializable\<close>
  of \<^verbatim>\<open>great_expectations.core.util\<close> are not among the sources; the spec calls them the
  generic JSON-serializability converter and the deep JSON-serializability check. A value
  is serializable when it is built from \<^verbatim>\<open>None\<close>, booleans, integers, strings, lists,
  tuples and dictionaries; the converter returns the JSON form of such a value, in which a
  tuple has become a list.
\<close>

fun json_serializable :: "pyval \<Rightarrow> bool" where
  "json_serializable (PList xs) = list_all json_serializable xs"
| "json_serializable (PTuple xs) = list_all json_serializable xs"
| "json_serializable (PDict kvs) = list_all (\<lambda>(k, v). json_serializable v) kvs"
| "json_serializable (PMetricDomainType t) = False"
| "json_serializable (PSemanticDomainType t) = False"
| "json_serializable (PObject c s) = False"
| "json_serializable v = True"

fun json_form :: "pyval \<Rightarrow> pyval" where
  "json_form (PList xs) = PList (map json_form xs)"
| "json_form (PTuple xs) = PList (map json_form xs)"
| "json_form (PDict kvs) = PDict (map (\<lambda>(k, v). (k, json_form v)) kvs)"
| "json_form v = v"

definition convert_to_json_serializable :: "pyval \<Rightarrow> error + pyval" where
  "convert_to_json_serializable data =
     (if json_serializable data then Inr (json_form data)
      else Inl (TypeError ''value cannot be converted to a JSON serializable form''))"

definition ensure_json_serializable :: "pyval \<Rightarrow> error + unit" where
  "ensure_json_serializable data =
     (if json_serializable data then Inr ()
      else Inl (InvalidExpectationConfigurationError ''value is not JSON serializable''))"

section \<open>\<^verbatim>\<open>Domain\<close> (rule\_based\_profiler/types/domain.py)\<close>

definition INFERRED_SEMANTIC_TYPE_KEY :: string where
  "INFERRED_SEMANTIC_TYPE_KEY = ''inferred_semantic_domain_type''"

text \<open>
  A \<^verbatim>\<open>Domain\<close> is a dictionary with the four keys its constructor sets; the record holds
  their values. \<^verbatim>\<open>DomainKwargs\<close> is a \<^verbatim>\<open>dict\<close> subclass that adds attribute access and
  \<^verbatim>\<open>to_json_dict\<close>; as a value it is the dictionary it wraps.
\<close>

record Domain =
  rule_name :: string
  domain_type :: MetricDomainTypes
  domain_kwargs :: pydict
  details :: pydict

text \<open>\<^verbatim>\<open>DomainKwargs.to_json_dict\<close>: \<^verbatim>\<open>convert_to_json_serializable(data=self.to_dict())\<close>.\<close>

definition DomainKwargs_to_json_dict :: "pydict \<Rightarrow> error + pyval" where
  "DomainKwargs_to_json_dict self = convert_to_json_serializable (PDict self)"

text \<open>
  \<^verbatim>\<open>Domain._convert_dictionaries_to_domain_kwargs\<close>: a dictionary is deep-cleaned, wrapped
  as \<^verbatim>\<open>DomainKwargs\<close>, and each of its values converted in turn; anything else is returned
  as it is.
\<close>

definition deep_filter_items :: "pydict \<Rightarrow> pydict" where
  "deep_filter_items kvs =
     (case deep_filter_properties_iterable (PDict kvs) of PDict kvs' \<Rightarrow> kvs' | _ \<Rightarrow> [])"

lemma size_list_filter_le: "size_list f (filter P xs) \<le> size_list f xs"
  by (induction xs) auto

lemma size_list_map_le:
  "(\<And>x. x \<in> set xs \<Longrightarrow> f (g x) \<le> f x) \<Longrightarrow> size_list f (map g xs) \<le> size_list f xs"
  by (induction xs) (auto simp: add_mono)

lemma size_deep_filter_properties_iterable:
  "size (deep_filter_properties_iterable v) \<le> size v"
proof (induction v rule: deep_filter_properties_iterable.induct)
  case (1 kvs)
  have "size_list (size_prod (\<lambda>_. 0) size) (map (\<lambda>(k, v). (k, deep_filter_properties_iterable v)) kvs)
        \<le> size_list (size_prod (\<lambda>_. 0) size) kvs"
    by (rule size_list_map_le) (use 1 in auto)
  then show ?case
    using size_list_filter_le [of "size_prod (\<lambda>_. 0) size" "\<lambda>(k, v). \<not> null_or_empty v"
        "map (\<lambda>(k, v). (k, deep_filter_properties_iterable v)) kvs"]
    by simp
next
  case (2 xs)
  have "size_list size (map deep_filter_properties_iterable xs) \<le> size_list size xs"
    by (rule size_list_map_le) (use 2 in auto)
  then show ?case
    using size_list_filter_le [of size "\<lambda>v. \<not> null_or_empty v" "map deep_filter_properties_iterable xs"]
    by simp
next
  case (3 xs)
  have "size_list size (map deep_filter_properties_iterable xs) \<le> size_list size xs"
    by (rule size_list_map_le) (use 3 in auto)
  then show ?case
    using size_list_filter_le [of size "\<lambda>v. \<not> null_or_empty v" "map deep_filter_properties_iterable xs"]
    by simp
qed simp_all

lemma size_dict_member: "(k, v) \<in> set kvs \<Longrightarrow> size v < size (PDict kvs)"
  by (induction kvs) auto

lemma size_deep_filter_items:
  assumes "(k, v) \<in> set (deep_filter_items kvs)"
  shows "size v < size (PDict kvs)"
proof -
  have "size (PDict (deep_filter_items kvs)) \<le> size (PDict kvs)"
    using size_deep_filter_properties_iterable [of "PDict kvs"]
    by (simp add: deep_filter_items_def)
  moreover have "size v < size (PDict (deep_filter_items kvs))"
    using assms by (rule size_dict_member)
  ultimately show ?thesis by simp
qed

function convert_dictionaries_to_domain_kwargs :: "pyval \<Rightarrow> pyval" where
  "convert_dictionaries_to_domain_kwargs (PDict kvs) =
     PDict (map (\<lambda>(k, v). (k, convert_dictionaries_to_domain_kwargs v)) (deep_filter_items kvs))"
| "convert_dictionaries_to_domain_kwargs PNone = PNone"
| "convert_dictionaries_to_domain_kwargs (PBool b) = PBool b"
| "convert_dictionaries_to_domain_kwargs (PInt i) = PInt i"
| "convert_dictionaries_to_domain_kwargs (PStr s) = PStr s"
| "convert_dictionaries_to_domain_kwargs (PList xs) = PList xs"
| "convert_dictionaries_to_domain_kwargs (PTuple xs) = PTuple xs"
| "convert_dictionaries_to_domain_kwargs (PMetricDomainType t) = PMetricDomainType t"
| "convert_dictionaries_to_domain_kwargs (PSemanticDomainType t) = PSemanticDomainType t"
| "convert_dictionaries_to_domain_kwargs (PObject c s) = PObject c s"
  by pat_completeness auto
termination
  by (relation "measure size") (auto dest: size_deep_filter_items)


text \<open>
  \<^verbatim>\<open>Domain.__init__\<close>. A string is looked up in the enumeration; the handler around the
  lookup turns a \<^verbatim>\<open>TypeError\<close> or a \<^verbatim>\<open>KeyError\<close> into a \<^verbatim>\<open>ValueError\<close> that names the
  value and its type, and lets every other exception pass. Any other argument that is not
  a member raises that \<^verbatim>\<open>ValueError\<close> directly.
\<close>

definition not_supported_message :: "pyval \<Rightarrow> string" where
  "not_supported_message v =
     ''Cannot instantiate Domain (domain_type '' @ [dquote] @ py_str v @ [dquote]
       @ '' of type '' @ [dquote] @ py_type_str v @ [dquote] @ '' is not supported).''"

fun error_str :: "error \<Rightarrow> string" where
  "error_str (ValueError m) = m"
| "error_str (TypeError m) = m"
| "error_str (KeyError m) = py_repr_str m"
| "error_str (AttributeError m) = m"
| "error_str (JSONDecodeError m) = m"
| "error_str (InvalidExpectationConfigurationError m) = m"
| "error_str (ClassInstantiationError m) = m"
| "error_str FloatNotModelled = []"

definition Domain_init ::
  "string \<Rightarrow> pyval \<Rightarrow> pydict option \<Rightarrow> pydict option \<Rightarrow> error + Domain" where
  "Domain_init rule_name' domain_type' domain_kwargs' details' =
     (case
        (case domain_type' of
           PStr s \<Rightarrow>
             (case MetricDomainTypes_call s of
                Inr t \<Rightarrow> Inr t
              | Inl (TypeError m) \<Rightarrow>
                  Inl (ValueError ('' '' @ error_str (TypeError m) @ '': ''
                         @ not_supported_message domain_type' @ [CHR 0x0A] @ replicate 20 CHR '' ''))
              | Inl (KeyError m) \<Rightarrow>
                  Inl (ValueError ('' '' @ error_str (KeyError m) @ '': ''
                         @ not_supported_message domain_type' @ [CHR 0x0A] @ replicate 20 CHR '' ''))
              | Inl e \<Rightarrow> Inl e)
         | PMetricDomainType t \<Rightarrow> Inr t
         | _ \<Rightarrow>
             Inl (ValueError ('' '' @ not_supported_message domain_type' @ [CHR 0x0A]
                    @ replicate 16 CHR '' '')))
      of
        Inl e \<Rightarrow> Inl e
      | Inr t \<Rightarrow>
          (let kwargs = (case domain_kwargs' of None \<Rightarrow> [] | Some d \<Rightarrow> d);
               domain_kwargs_dot_dict = convert_dictionaries_to_domain_kwargs (PDict kwargs)
           in Inr \<lparr> rule_name = rule_name',
                    domain_type = t,
                    domain_kwargs = (case domain_kwargs_dot_dict of PDict kvs \<Rightarrow> kvs | _ \<Rightarrow> []),
                    details = (case details' of None \<Rightarrow> [] | Some d \<Rightarrow> d) \<rparr>))"

text \<open>
  \<^verbatim>\<open>Domain.to_json_dict\<close>. The loop over \<^verbatim>\<open>details\<close> replaces a truthy value under the
  reserved key by the dictionary of its columns' semantic type values, and stores the
  converted value of every entry. \<^verbatim>\<open>semantic_type.value\<close> is the member's value for either
  enumeration and an \<^verbatim>\<open>AttributeError\<close> for a value that has no such attribute.
\<close>

fun semantic_type_value :: "pyval \<Rightarrow> error + pyval" where
  "semantic_type_value (PStr s) =
     (case SemanticDomainTypes_call (str_lower s) of
        Inl e \<Rightarrow> Inl e
      | Inr t \<Rightarrow> Inr (PStr (SemanticDomainTypes_value t)))"
| "semantic_type_value (PSemanticDomainType t) = Inr (PStr (SemanticDomainTypes_value t))"
| "semantic_type_value (PMetricDomainType t) = Inr (PStr (MetricDomainTypes_value t))"
| "semantic_type_value v = Inl (AttributeError ''object has no attribute value'')"

definition inferred_semantic_types :: "pyval \<Rightarrow> error + pyval" where
  "inferred_semantic_types v =
     (case v of
        PDict cols \<Rightarrow>
          (case map_err (\<lambda>(column_name, semantic_type).
                           case semantic_type_value semantic_type of
                             Inl e \<Rightarrow> Inl e
                           | Inr s \<Rightarrow> Inr (column_name, s)) cols of
             Inl e \<Rightarrow> Inl e
           | Inr cols' \<Rightarrow> Inr (PDict cols'))
      | _ \<Rightarrow> Inl (AttributeError ''object has no attribute items''))"

definition details_entry :: "string \<times> pyval \<Rightarrow> error + string \<times> pyval" where
  "details_entry kv =
     (case kv of (key, v) \<Rightarrow>
        (case (if truthy v \<and> key = INFERRED_SEMANTIC_TYPE_KEY then inferred_semantic_types v
               else Inr v) of
           Inl e \<Rightarrow> Inl e
         | Inr v' \<Rightarrow>
             (case convert_to_json_serializable v' of
                Inl e \<Rightarrow> Inl e
              | Inr j \<Rightarrow> Inr (key, j))))"

definition to_json_dict :: "Domain \<Rightarrow> error + pydict" where
  "to_json_dict self =
     (case map_err details_entry (details self) of
        Inl e \<Rightarrow> Inl e
      | Inr details' \<Rightarrow>
          (case DomainKwargs_to_json_dict (domain_kwargs self) of
             Inl e \<Rightarrow> Inl e
           | Inr kwargs \<Rightarrow>
               Inr (filter_properties_dict
                      [(''rule_name'', PStr (rule_name self)),
                       (''domain_type'', PStr (MetricDomainTypes_value (domain_type self))),
                       (''domain_kwargs'', kwargs),
                       (''details'', PDict details')])))"

text \<open>
  The reading of the spec's ``accepting either a string, case-insensitively, or an enum
  instance'': a details value denotes a semantic type when it is that member, or a string
  equal to the member's value up to case.
\<close>

definition denotes_semantic_type :: "pyval \<Rightarrow> SemanticDomainTypes \<Rightarrow> bool" where
  "denotes_semantic_type v t =
     (case v of
        PStr s \<Rightarrow> str_lower s = str_lower (SemanticDomainTypes_value t)
      | PSemanticDomainType t' \<Rightarrow> t' = t
      | _ \<Rightarrow> False)"

section \<open>The \<^verbatim>\<open>json\<close> module\<close>

text \<open>
  \<^verbatim>\<open>json.dumps\<close> and \<^verbatim>\<open>json.loads\<close> belong to the standard library. They are modelled on
  the text they write and read: the encoder with its default separators, its \<^verbatim>\<open>indent\<close>
  and \<^verbatim>\<open>sort_keys\<close> options and its escapes (\<^verbatim>\<open>ensure_ascii\<close>); the decoder as a scanner
  that cuts the text into tokens, skipping white space, and a push-down parser over the
  tokens. A number with a fraction or an exponent, \<^verbatim>\<open>NaN\<close> and \<^verbatim>\<open>Infinity\<close> are floating
  point numbers, which are not modelled: the decoder reports them as \<open>FloatNotModelled\<close>.
\<close>

subsection \<open>Encoding\<close>

definition escape_char :: "char \<Rightarrow> string" where
  "escape_char c =
     (if c = dquote then [backslash, dquote]
      else if c = backslash then [backslash, backslash]
      else if c = CHR 0x0A then [backslash, CHR ''n'']
      else if c = CHR 0x0D then [backslash, CHR ''r'']
      else if c = CHR 0x09 then [backslash, CHR ''t'']
      else if c = CHR 0x08 then [backslash, CHR ''b'']
      else if c = CHR 0x0C then [backslash, CHR ''f'']
      else if (of_char c :: nat) < 32 \<or> 126 < (of_char c :: nat)
           then [backslash, CHR ''u'', CHR ''0'', CHR ''0''] @ hex2 c
      else [c])"

definition encode_basestring_ascii :: "string \<Rightarrow> string" where
  "encode_basestring_ascii s = dquote # concat (map escape_char s) @ [dquote]"

definition newline_indent :: "nat option \<Rightarrow> nat \<Rightarrow> string" where
  "newline_indent indent level =
     (case indent of None \<Rightarrow> [] | Some n \<Rightarrow> CHR 0x0A # replicate (n * level) CHR '' '')"

definition item_separator :: "nat option \<Rightarrow> nat \<Rightarrow> string" where
  "item_separator indent level =
     (case indent of None \<Rightarrow> '', '' | Some n \<Rightarrow> CHR '','' # newline_indent indent level)"

definition key_separator :: string where
  "key_separator = '': ''"

lemma size_list_member: "x \<in> set xs \<Longrightarrow> size x < Suc (size_list size xs)"
  by (induction xs) auto

function (sequential) json_encode :: "nat option \<Rightarrow> bool \<Rightarrow> nat \<Rightarrow> pyval \<Rightarrow> string" where
  "json_encode indent sort_keys level PNone = ''null''"
| "json_encode indent sort_keys level (PBool b) = (if b then ''true'' else ''false'')"
| "json_encode indent sort_keys level (PInt i) = show_int i"
| "json_encode indent sort_keys level (PStr s) = encode_basestring_ascii s"
| "json_encode indent sort_keys level (PList xs) =
     (if xs = [] then ''[]''
      else ''['' @ newline_indent indent (Suc level)
           @ join (item_separator indent (Suc level))
               (map (json_encode indent sort_keys (Suc level)) xs)
           @ newline_indent indent level @ '']'')"
| "json_encode indent sort_keys level (PTuple xs) =
     (if xs = [] then ''[]''
      else ''['' @ newline_indent indent (Suc level)
           @ join (item_separator indent (Suc level))
               (map (json_encode indent sort_keys (Suc level)) xs)
           @ newline_indent indent level @ '']'')"
| "json_encode indent sort_keys level (PDict kvs) =
     (if kvs = [] then ''{}''
      else ''{'' @ newline_indent indent (Suc level)
           @ join (item_separator indent (Suc level))
               (map (\<lambda>(k, v). encode_basestring_ascii k @ key_separator
                                @ json_encode indent sort_keys (Suc level) v)
                    (if sort_keys then sort_key fst kvs else kvs))
           @ newline_indent indent level @ ''}'')"
| "json_encode indent sort_keys level v = []"
  by pat_completeness auto
termination
  by (relation "measure (\<lambda>(indent, sort_keys, level, v). size v)")
     (auto dest: size_dict_member size_list_member split: if_splits)

text \<open>
  \<^verbatim>\<open>json.dumps(obj, indent=..., sort_keys=...)\<close>: a \<^verbatim>\<open>TypeError\<close> for an object the
  encoder has no form for.
\<close>

definition json_dumps :: "nat option \<Rightarrow> bool \<Rightarrow> pyval \<Rightarrow> error + string" where
  "json_dumps indent sort_keys obj =
     (if json_serializable obj then Inr (json_encode indent sort_keys 0 obj)
      else Inl (TypeError ''Object is not JSON serializable''))"

subsection \<open>Decoding: the scanner\<close>

datatype token =
    TLBrace | TRBrace | TLBracket | TRBracket | TComma | TColon | TLit pyval

definition is_ws :: "char \<Rightarrow> bool" where
  "is_ws c = (c = CHR '' '' \<or> c = CHR 0x09 \<or> c = CHR 0x0A \<or> c = CHR 0x0D)"

definition is_digit :: "char \<Rightarrow> bool" where
  "is_digit c = (48 \<le> (of_char c :: nat) \<and> (of_char c :: nat) \<le> 57)"

definition digit_val :: "char \<Rightarrow> nat" where
  "digit_val c = of_char c - 48"

definition hex_val :: "char \<Rightarrow> nat option" where
  "hex_val c =
     (let n = (of_char c :: nat)
      in if 48 \<le> n \<and> n \<le> 57 then Some (n - 48)
         else if 97 \<le> n \<and> n \<le> 102 then Some (n - 87)
         else if 65 \<le> n \<and> n \<le> 70 then Some (n - 55)
         else None)"

definition unescape :: "char \<Rightarrow> char option" where
  "unescape e =
     (if e = dquote then Some dquote
      else if e = backslash then Some backslash
      else if e = CHR ''/'' then Some CHR ''/''
      else if e = CHR ''b'' then Some (CHR 0x08)
      else if e = CHR ''f'' then Some (CHR 0x0C)
      else if e = CHR ''n'' then Some (CHR 0x0A)
      else if e = CHR ''r'' then Some (CHR 0x0D)
      else if e = CHR ''t'' then Some (CHR 0x09)
      else None)"

text \<open>
  The body of a string, after its opening quote: the text up to the closing quote, with
  the escapes resolved, and what follows the quote. A \<^verbatim>\<open>\uXXXX\<close> escape of a code point
  from 256 on has no character in the model.
\<close>

fun scan_string :: "string \<Rightarrow> (string \<times> string) option" where
  "scan_string [] = None"
| "scan_string (c # cs) =
     (if c = dquote then Some ([], cs)
      else if c = backslash then
        (case cs of
           [] \<Rightarrow> None
         | e # cs' \<Rightarrow>
             if e = CHR ''u'' then
               (case cs' of
                  h1 # h2 # h3 # h4 # cs'' \<Rightarrow>
                    (case (hex_val h1, hex_val h2, hex_val h3, hex_val h4) of
                       (Some a, Some b, Some c', Some d) \<Rightarrow>
                         if a = 0 \<and> b = 0 then
                           (case scan_string cs'' of
                              None \<Rightarrow> None
                            | Some (s, rest) \<Rightarrow> Some (char_of (16 * c' + d) # s, rest))
                         else None
                     | _ \<Rightarrow> None)
                | _ \<Rightarrow> None)
             else
               (case unescape e of
                  None \<Rightarrow> None
                | Some ch \<Rightarrow>
                    (case scan_string cs' of
                       None \<Rightarrow> None
                     | Some (s, rest) \<Rightarrow> Some (ch # s, rest))))
      else if (of_char c :: nat) < 32 then None
      else (case scan_string cs of
              None \<Rightarrow> None
            | Some (s, rest) \<Rightarrow> Some (c # s, rest)))"

text \<open>
  A number: an optional minus sign, then \<^verbatim>\<open>0\<close> or a digit from 1 to 9 followed by digits.
  When a fraction or an exponent follows, the number is a float.
\<close>

definition digits_val :: "string \<Rightarrow> nat" where
  "digits_val ds = foldl (\<lambda>n c. 10 * n + digit_val c) 0 ds"

definition float_follows :: "string \<Rightarrow> bool" where
  "float_follows rest =
     (case rest of
        c # d # _ \<Rightarrow>
          (c = CHR ''.'' \<and> is_digit d)
          \<or> ((c = CHR ''e'' \<or> c = CHR ''E'')
              \<and> (is_digit d
                  \<or> ((d = CHR ''+'' \<or> d = CHR ''-'')
                      \<and> (case drop 2 rest of x # _ \<Rightarrow> is_digit x | [] \<Rightarrow> False))))
      | _ \<Rightarrow> False)"

definition scan_digits :: "string \<Rightarrow> (nat \<times> string) option" where
  "scan_digits cs =
     (case cs of
        [] \<Rightarrow> None
      | c # cs' \<Rightarrow>
          if c = CHR ''0'' then Some (0, cs')
          else if is_digit c then
            Some (digits_val (takeWhile is_digit cs), dropWhile is_digit cs)
          else None)"

definition scan_number :: "string \<Rightarrow> error + int \<times> string" where
  "scan_number cs =
     (case (case cs of
              c # cs' \<Rightarrow>
                if c = CHR ''-'' then map_option (\<lambda>(n, rest). (- int n, rest)) (scan_digits cs')
                else map_option (\<lambda>(n, rest). (int n, rest)) (scan_digits cs)
            | [] \<Rightarrow> None) of
        None \<Rightarrow> Inl (JSONDecodeError ''Expecting value'')
      | Some (i, rest) \<Rightarrow> if float_follows rest then Inl FloatNotModelled else Inr (i, rest))"

definition tcons :: "token \<Rightarrow> error + token list \<Rightarrow> error + token list" where
  "tcons t r = (case r of Inl e \<Rightarrow> Inl e | Inr ts \<Rightarrow> Inr (t # ts))"

lemma scan_string_length: "scan_string cs = Some (s, rest) \<Longrightarrow> length rest < length cs"
proof (induction cs arbitrary: s rest rule: scan_string.induct)
  case 1
  then show ?case by simp
next
  case (2 c cs)
  show ?case
    using "2.prems" "2.IH"
    by (auto split: if_splits list.splits option.splits prod.splits simp: less_Suc_eq)
qed

lemma scan_digits_length: "scan_digits cs = Some (n, rest) \<Longrightarrow> length rest < length cs"
proof -
  assume a: "scan_digits cs = Some (n, rest)"
  then obtain c cs' where cs: "cs = c # cs'"
    by (cases cs) (auto simp: scan_digits_def)
  have "length (dropWhile is_digit cs') \<le> length cs'"
    by (rule length_dropWhile_le)
  then show ?thesis
    using a cs by (auto simp: scan_digits_def split: if_splits)
qed

lemma scan_number_length: "scan_number cs = Inr (i, rest) \<Longrightarrow> length rest < length cs"
  by (cases cs)
     (auto simp: scan_number_def split: if_splits option.splits
        dest!: scan_digits_length)

function lex :: "string \<Rightarrow> error + token list" where
  "lex [] = Inr []"
| "lex (c # cs) =
     (if is_ws c then lex cs
      else if c = CHR ''{'' then tcons TLBrace (lex cs)
      else if c = CHR ''}'' then tcons TRBrace (lex cs)
      else if c = CHR ''['' then tcons TLBracket (lex cs)
      else if c = CHR '']'' then tcons TRBracket (lex cs)
      else if c = CHR '','' then tcons TComma (lex cs)
      else if c = CHR '':'' then tcons TColon (lex cs)
      else if c = dquote then
        (case scan_string cs of
           None \<Rightarrow> Inl (JSONDecodeError ''Invalid string'')
         | Some (s, rest) \<Rightarrow> tcons (TLit (PStr s)) (lex rest))
      else if take 4 (c # cs) = ''null'' then tcons (TLit PNone) (lex (drop 3 cs))
      else if take 4 (c # cs) = ''true'' then tcons (TLit (PBool True)) (lex (drop 3 cs))
      else if take 5 (c # cs) = ''false'' then tcons (TLit (PBool False)) (lex (drop 4 cs))
      else if take 3 (c # cs) = ''NaN'' \<or> take 8 (c # cs) = ''Infinity''
              \<or> take 9 (c # cs) = ''-Infinity'' then Inl FloatNotModelled
      else if c = CHR ''-'' \<or> is_digit c then
        (case scan_number (c # cs) of
           Inl e \<Rightarrow> Inl e
         | Inr (i, rest) \<Rightarrow> tcons (TLit (PInt i)) (lex rest))
      else Inl (JSONDecodeError ''Expecting value''))"
  by pat_completeness auto
termination
proof (relation "measure length", goal_cases)
  case 1 show ?case by simp
next
  case (2 c cs) then show ?case by simp
next
  case (3 c cs) then show ?case by simp
next
  case (4 c cs) then show ?case by simp
next
  case (5 c cs) then show ?case by simp
next
  case (6 c cs) then show ?case by simp
next
  case (7 c cs) then show ?case by simp
next
  case (8 c cs) then show ?case by simp
next
  case (9 c cs x2 x y) then show ?case using scan_string_length [of cs x y] by simp
next
  case (10 c cs) then show ?case by simp
next
  case (11 c cs) then show ?case by simp
next
  case (12 c cs) then show ?case by simp
next
  case (13 c cs x2 x y) then show ?case using scan_number_length [of "c # cs" x y] by simp
qed

declare lex.simps [simp del]

subsection \<open>Decoding: the parser\<close>

text \<open>
  The parser keeps a stack of the arrays and objects that are open, each with what it
  holds so far (an object also with the key whose value is awaited), and what it expects
  next. A repeated key of an object keeps its first place and takes the last value, as
  \<^verbatim>\<open>dict\<close> does.
\<close>

datatype frame = FArr "pyval list" | FObj pydict | FObjKey pydict string

datatype expect =
    WantValue | WantValueOrClose | WantKeyOrClose | WantKey | WantColon | WantCommaOrClose
  | Done pyval

fun push_value :: "pyval \<Rightarrow> frame list \<Rightarrow> (frame list \<times> expect) option" where
  "push_value v [] = Some ([], Done v)"
| "push_value v (FArr xs # st) = Some (FArr (xs @ [v]) # st, WantCommaOrClose)"
| "push_value v (FObjKey kvs k # st) = Some (FObj (dict_setitem kvs k v) # st, WantCommaOrClose)"
| "push_value v (FObj kvs # st) = None"

fun open_value :: "token \<Rightarrow> frame list \<Rightarrow> (frame list \<times> expect) option" where
  "open_value (TLit v) st = push_value v st"
| "open_value TLBracket st = Some (FArr [] # st, WantValueOrClose)"
| "open_value TLBrace st = Some (FObj [] # st, WantKeyOrClose)"
| "open_value t st = None"

fun parse_step :: "token \<Rightarrow> frame list \<times> expect \<Rightarrow> (frame list \<times> expect) option" where
  "parse_step t (st, WantValue) = open_value t st"
| "parse_step t (st, WantValueOrClose) =
     (case (t, st) of
        (TRBracket, FArr [] # st') \<Rightarrow> push_value (PList []) st'
      | _ \<Rightarrow> open_value t st)"
| "parse_step t (st, WantKeyOrClose) =
     (case (t, st) of
        (TRBrace, FObj [] # st') \<Rightarrow> push_value (PDict []) st'
      | (TLit (PStr k), FObj kvs # st') \<Rightarrow> Some (FObjKey kvs k # st', WantColon)
      | _ \<Rightarrow> None)"
| "parse_step t (st, WantKey) =
     (case (t, st) of
        (TLit (PStr k), FObj kvs # st') \<Rightarrow> Some (FObjKey kvs k # st', WantColon)
      | _ \<Rightarrow> None)"
| "parse_step t (st, WantColon) =
     (case t of TColon \<Rightarrow> Some (st, WantValue) | _ \<Rightarrow> None)"
| "parse_step t (st, WantCommaOrClose) =
     (case (t, st) of
        (TComma, FArr xs # st') \<Rightarrow> Some (st, WantValue)
      | (TComma, FObj kvs # st') \<Rightarrow> Some (st, WantKey)
      | (TRBracket, FArr xs # st') \<Rightarrow> push_value (PList xs) st'
      | (TRBrace, FObj kvs # st') \<Rightarrow> push_value (PDict kvs) st'
      | _ \<Rightarrow> None)"
| "parse_step t (st, Done v) = None"

fun parse_run :: "token list \<Rightarrow> frame list \<times> expect \<Rightarrow> (frame list \<times> expect) option" where
  "parse_run [] s = Some s"
| "parse_run (t # ts) s = (case parse_step t s of None \<Rightarrow> None | Some s' \<Rightarrow> parse_run ts s')"

definition parse :: "token list \<Rightarrow> pyval option" where
  "parse ts = (case parse_run ts ([], WantValue) of Some ([], Done v) \<Rightarrow> Some v | _ \<Rightarrow> None)"

definition json_loads :: "string \<Rightarrow> error + pyval" where
  "json_loads s =
     (case lex s of
        Inl e \<Rightarrow> Inl e
      | Inr ts \<Rightarrow>
          (case parse ts of
             None \<Rightarrow> Inl (JSONDecodeError ''Expecting value'')
           | Some v \<Rightarrow> Inr v))"

subsection \<open>The tokens of an encoded value\<close>

text \<open>
  What the scanner is to find in the text the encoder writes for a value, whatever the
  indentation: used to state that decoding inverts encoding.
\<close>

fun tokens_of :: "pyval \<Rightarrow> token list" where
  "tokens_of (PList xs) = TLBracket # join [TComma] (map tokens_of xs) @ [TRBracket]"
| "tokens_of (PTuple xs) = TLBracket # join [TComma] (map tokens_of xs) @ [TRBracket]"
| "tokens_of (PDict kvs) =
     TLBrace # join [TComma] (map (\<lambda>(k, v). TLit (PStr k) # TColon # tokens_of v) kvs)
       @ [TRBrace]"
| "tokens_of v = [TLit v]"

definition tapp :: "token list \<Rightarrow> error + token list \<Rightarrow> error + token list" where
  "tapp ts r = foldr tcons ts r"

definition num_end :: "string \<Rightarrow> bool" where
  "num_end rest =
     (case rest of
        [] \<Rightarrow> True
      | c # _ \<Rightarrow> \<not> is_digit c \<and> c \<noteq> CHR ''.'' \<and> c \<noteq> CHR ''e'' \<and> c \<noteq> CHR ''E'')"

text \<open>
  The parser reads the tokens of a value as that value's JSON form: from any stack, where
  a value may start, it ends where pushing the form ends.
\<close>

definition value_parsed :: "pyval \<Rightarrow> bool" where
  "value_parsed x = (\<forall>ts st m. m = WantValue \<or> m = WantValueOrClose \<longrightarrow>
       parse_run (tokens_of x @ ts) (st, m) =
         (case push_value (json_form x) st of None \<Rightarrow> None | Some s' \<Rightarrow> parse_run ts s'))"


section \<open>\<^verbatim>\<open>MetricStore\<close> and \<^verbatim>\<open>EvaluationParameterStore\<close> (data\_context/store/metric\_store.py)\<close>

subsection \<open>Keys and the storage backend\<close>

text \<open>
  Modelled from the spec: \<^verbatim>\<open>RunIdentifier\<close> and \<^verbatim>\<open>ValidationMetricIdentifier\<close> are not
  among the sources. The spec gives a metric record's composite key as run name, run time,
  data asset name, expectation-suite identifier, metric name and metric-kwargs id; the
  key's tuple lists them in this order, the run identifier's tuple is its first two.
\<close>

record RunIdentifier =
  run_name :: string
  run_time :: string

record ValidationMetricIdentifier =
  run_id :: RunIdentifier
  data_asset_name :: string
  expectation_suite_identifier :: string
  metric_name :: string
  metric_kwargs_id :: string

definition RunIdentifier_to_tuple :: "RunIdentifier \<Rightarrow> string list" where
  "RunIdentifier_to_tuple r = [run_name r, run_time r]"

definition key_to_tuple :: "ValidationMetricIdentifier \<Rightarrow> string list" where
  "key_to_tuple k =
     RunIdentifier_to_tuple (run_id k)
       @ [data_asset_name k, expectation_suite_identifier k, metric_name k, metric_kwargs_id k]"

definition tuple_to_key :: "string list \<Rightarrow> error + ValidationMetricIdentifier" where
  "tuple_to_key t =
     (case t of
        [a, b, c, d, e, f] \<Rightarrow>
          Inr \<lparr> run_id = \<lparr> run_name = a, run_time = b \<rparr>, data_asset_name = c,
                expectation_suite_identifier = d, metric_name = e, metric_kwargs_id = f \<rparr>
      | _ \<Rightarrow> Inl (TypeError ''wrong number of key components''))"

text \<open>
  Modelled from the spec: the storage backend is a collaborator that is not among the
  sources. It maps key tuples to the stored texts, lists the keys under a prefix in the
  order it holds them, and raises for a key it does not hold.
\<close>

type_synonym backend_data = "(string list \<times> string) list"

fun backend_set :: "backend_data \<Rightarrow> string list \<Rightarrow> string \<Rightarrow> backend_data" where
  "backend_set [] k s = [(k, s)]"
| "backend_set ((k', s') # kss) k s =
     (if k' = k then (k, s) # kss else (k', s') # backend_set kss k s)"

definition backend_get :: "backend_data \<Rightarrow> string list \<Rightarrow> error + pyval" where
  "backend_get b k =
     (case map_of b k of
        None \<Rightarrow> Inl (KeyError (concat k))
      | Some s \<Rightarrow> Inr (PStr s))"

definition backend_list_keys :: "backend_data \<Rightarrow> string list \<Rightarrow> string list list" where
  "backend_list_keys b p = filter (prefix p) (map fst b)"

subsection \<open>Loading the backend class\<close>

text \<open>
  Modelled from the spec: \<^verbatim>\<open>verify_dynamic_loading_support\<close> and \<^verbatim>\<open>load_class\<close> are not
  among the sources. The spec describes a loader that maps a module name and a class name
  to a class object and fails on an unresolved name. The environment says which modules
  can be imported and which classes they hold; of a class, the constructors ask only
  whether it is a subclass of \<^verbatim>\<open>DatabaseStoreBackend\<close>.
\<close>

record py_class =
  class_qualname :: string
  database_store_backend :: bool

record py_env =
  importable :: "string \<Rightarrow> bool"
  classes :: "string \<Rightarrow> string \<Rightarrow> py_class option"

definition verify_dynamic_loading_support :: "py_env \<Rightarrow> pyval \<Rightarrow> error + unit" where
  "verify_dynamic_loading_support env module_name =
     (case module_name of
        PStr m \<Rightarrow>
          if importable env m then Inr ()
          else Inl (ClassInstantiationError (''No module named '' @ m))
      | _ \<Rightarrow> Inl (TypeError ''module name must be a string''))"

definition load_class :: "py_env \<Rightarrow> pyval \<Rightarrow> pyval \<Rightarrow> error + py_class" where
  "load_class env class_name module_name =
     (case (class_name, module_name) of
        (PStr c, PStr m) \<Rightarrow>
          (case classes env m c of
             None \<Rightarrow> Inl (ClassInstantiationError (''The module '' @ m @ '' has no class '' @ c))
           | Some cls \<Rightarrow> Inr cls)
      | _ \<Rightarrow> Inl (TypeError ''class name and module name must be strings''))"

subsection \<open>The stores\<close>

text \<open>
  A store holds the configuration it built its backend from, its name, and the backend's
  contents. An \<^verbatim>\<open>EvaluationParameterStore\<close> has, in addition, the \<^verbatim>\<open>_config\<close> snapshot.

  Modelled from the spec: \<^verbatim>\<open>Store.__init__\<close>, \<^verbatim>\<open>Store.get\<close> and \<^verbatim>\<open>Store.set\<close> belong to the
  generic store base, which is not among the sources. The constructor builds the backend
  the configuration names (an in-memory one by default) and has no side effect beyond it;
  \<^verbatim>\<open>set\<close> validates the value, serializes it and hands the text to the backend under the
  key's tuple; \<^verbatim>\<open>get\<close> fetches the text and deserializes it.
\<close>

record Store =
  store_backend_config :: "pydict option"
  store_name :: pyval
  store_backend :: backend_data
  store_config :: pydict

definition Store_init :: "py_env \<Rightarrow> pydict option \<Rightarrow> pyval \<Rightarrow> error + Store" where
  "Store_init env store_backend' store_name' =
     (let conf = (case store_backend' of
                    None \<Rightarrow> [(''class_name'', PStr ''InMemoryStoreBackend'')]
                  | Some d \<Rightarrow> d)
      in case load_class env
                (dict_get conf ''class_name'' (PStr ''InMemoryStoreBackend''))
                (dict_get conf ''module_name'' (PStr ''great_expectations.data_context.store'')) of
           Inl e \<Rightarrow> Inl e
         | Inr cls \<Rightarrow>
             Inr \<lparr> store_backend_config = store_backend', store_name = store_name',
                   store_backend = [], store_config = [] \<rparr>)"

text \<open>
  \<^verbatim>\<open>MetricStore.__init__\<close>. The second component of the result is the caller's
  \<^verbatim>\<open>store_backend\<close> mapping as the constructor leaves it: the constructor assigns to the
  mapping it was given, not to a copy.
\<close>

definition key_columns_default :: pyval where
  "key_columns_default =
     PList [PStr ''run_name'', PStr ''run_time'', PStr ''data_asset_name'',
            PStr ''expectation_suite_identifier'', PStr ''metric_name'',
            PStr ''metric_kwargs_id'']"

definition MetricStore_init ::
  "py_env \<Rightarrow> pydict option \<Rightarrow> pyval \<Rightarrow> (error + Store) \<times> pydict option" where
  "MetricStore_init env store_backend' store_name' =
     (case store_backend' of
        None \<Rightarrow> (Store_init env None store_name', None)
      | Some sb \<Rightarrow>
          (let store_backend_module_name =
                 dict_get sb ''module_name'' (PStr ''great_expectations.data_context.store'');
               store_backend_class_name =
                 dict_get sb ''class_name'' (PStr ''InMemoryStoreBackend'')
           in case verify_dynamic_loading_support env store_backend_module_name of
                Inl e \<Rightarrow> (Inl e, Some sb)
              | Inr _ \<Rightarrow>
                  (case load_class env store_backend_class_name store_backend_module_name of
                     Inl e \<Rightarrow> (Inl e, Some sb)
                   | Inr store_backend_class \<Rightarrow>
                       (let sb1 =
                              (if database_store_backend store_backend_class then
                                 (let sb' =
                                        (if ''table_name'' \<notin> set (map fst sb)
                                         then dict_setitem sb ''table_name''
                                                (dict_get sb ''table_name'' (PStr ''ge_metrics''))
                                         else sb)
                                  in if ''key_columns'' \<notin> set (map fst sb')
                                     then dict_setitem sb' ''key_columns''
                                            (dict_get sb' ''key_columns'' key_columns_default)
                                     else sb')
                               else sb)
                        in (Store_init env (Some sb1) store_name', Some sb1)))))"

text \<open>\<^verbatim>\<open>MetricStore._validate_value\<close>, \<^verbatim>\<open>serialize\<close> and \<^verbatim>\<open>deserialize\<close>.\<close>

definition MetricStore_validate_value :: "pyval \<Rightarrow> error + unit" where
  "MetricStore_validate_value v = ensure_json_serializable v"

definition serialize :: "ValidationMetricIdentifier \<Rightarrow> pyval \<Rightarrow> error + string" where
  "serialize key v = json_dumps None False (PDict [(''value'', v)])"

text \<open>\<^verbatim>\<open>obj["value"]\<close> on what \<^verbatim>\<open>json.loads\<close> returned.\<close>

definition py_getitem :: "pyval \<Rightarrow> string \<Rightarrow> error + pyval" where
  "py_getitem obj k =
     (case obj of
        PDict d \<Rightarrow> (case map_of d k of None \<Rightarrow> Inl (KeyError k) | Some v \<Rightarrow> Inr v)
      | _ \<Rightarrow> Inl (TypeError ''indices must be integers, or the object is not subscriptable''))"

definition deserialize :: "ValidationMetricIdentifier \<Rightarrow> pyval \<Rightarrow> error + pyval" where
  "deserialize key v =
     (if truthy v then
        (case v of
           PStr s \<Rightarrow>
             (case json_loads s of
                Inl e \<Rightarrow> Inl e
              | Inr obj \<Rightarrow> py_getitem obj ''value'')
         | _ \<Rightarrow> Inl (TypeError ''the JSON object must be str, bytes or bytearray''))
      else Inr PNone)"

definition Store_set ::
  "Store \<Rightarrow> ValidationMetricIdentifier \<Rightarrow> pyval \<Rightarrow> (error + unit) \<times> Store" where
  "Store_set self key v =
     (case MetricStore_validate_value v of
        Inl e \<Rightarrow> (Inl e, self)
      | Inr _ \<Rightarrow>
          (case serialize key v of
             Inl e \<Rightarrow> (Inl e, self)
           | Inr s \<Rightarrow>
               (Inr (), self \<lparr> store_backend := backend_set (store_backend self) (key_to_tuple key) s \<rparr>)))"

definition Store_get :: "Store \<Rightarrow> ValidationMetricIdentifier \<Rightarrow> error + pyval" where
  "Store_get self key =
     (case backend_get (store_backend self) (key_to_tuple key) of
        Inl e \<Rightarrow> Inl e
      | Inr raw \<Rightarrow> deserialize key raw)"

text \<open>
  \<^verbatim>\<open>EvaluationParameterStore.__init__\<close>: the table name default is assigned whether or
  not the key is there (to the value it already has when it is), the parent's constructor
  runs on the same mapping, and \<^verbatim>\<open>_config\<close> is the call's arguments with the store's own
  module and class name, the falsy entries filtered out.
\<close>

definition EvaluationParameterStore_init ::
  "py_env \<Rightarrow> pydict option \<Rightarrow> pyval \<Rightarrow> (error + Store) \<times> pydict option" where
  "EvaluationParameterStore_init env store_backend' store_name' =
     (case
        (case store_backend' of
           None \<Rightarrow> Inr None
         | Some sb \<Rightarrow>
             (let store_backend_module_name =
                    dict_get sb ''module_name'' (PStr ''great_expectations.data_context.store'');
                  store_backend_class_name =
                    dict_get sb ''class_name'' (PStr ''InMemoryStoreBackend'')
              in case verify_dynamic_loading_support env store_backend_module_name of
                   Inl e \<Rightarrow> Inl e
                 | Inr _ \<Rightarrow>
                     (case load_class env store_backend_class_name store_backend_module_name of
                        Inl e \<Rightarrow> Inl e
                      | Inr store_backend_class \<Rightarrow>
                          Inr (Some (if database_store_backend store_backend_class
                                     then dict_setitem sb ''table_name''
                                            (dict_get sb ''table_name''
                                               (PStr ''ge_evaluation_parameters''))
                                     else sb)))))
      of
        Inl e \<Rightarrow> (Inl e, store_backend')
      | Inr sb1 \<Rightarrow>
          (case MetricStore_init env sb1 store_name' of
             (Inl e, sb2) \<Rightarrow> (Inl e, sb2)
           | (Inr st, sb2) \<Rightarrow>
               (Inr (st \<lparr> store_config :=
                          filter_properties_dict
                            [(''store_backend'', (case sb2 of None \<Rightarrow> PNone | Some d \<Rightarrow> PDict d)),
                             (''store_name'', store_name'),
                             (''module_name'',
                                PStr ''great_expectations.data_context.store.metric_store''),
                             (''class_name'', PStr ''EvaluationParameterStore'')] \<rparr>),
                sb2)))"

text \<open>
  \<^verbatim>\<open>EvaluationParameterStore.get_bind_params\<close>. The key's
  \<^verbatim>\<open>to_evaluation_parameter_urn\<close> is not among the sources; it is the parameter \<open>urn\<close>.
\<close>

fun bind_params_loop ::
  "(ValidationMetricIdentifier \<Rightarrow> string) \<Rightarrow> Store \<Rightarrow> string list list \<Rightarrow> pydict
     \<Rightarrow> error + pydict" where
  "bind_params_loop urn self [] params = Inr params"
| "bind_params_loop urn self (k # ks) params =
     (case tuple_to_key k of
        Inl e \<Rightarrow> Inl e
      | Inr key \<Rightarrow>
          (case Store_get self key of
             Inl e \<Rightarrow> Inl e
           | Inr v \<Rightarrow> bind_params_loop urn self ks (dict_setitem params (urn key) v)))"

definition get_bind_params ::
  "(ValidationMetricIdentifier \<Rightarrow> string) \<Rightarrow> Store \<Rightarrow> RunIdentifier \<Rightarrow> error + pydict" where
  "get_bind_params urn self run_id' =
     bind_params_loop urn self
       (backend_list_keys (store_backend self) (RunIdentifier_to_tuple run_id')) []"

section \<open>Equality of Python values\<close>

text \<open>
  \<^verbatim>\<open>==\<close> on the values of the model: a boolean equals the integer it stands for, lists
  and tuples are compared element by element (and a list never equals a tuple),
  dictionaries by their keys and the values under them, whatever the order of insertion;
  enumeration members and other objects are equal to themselves only.
\<close>

fun py_eq :: "pyval \<Rightarrow> pyval \<Rightarrow> bool" where
  "py_eq PNone w = (w = PNone)"
| "py_eq (PBool a) w =
     (case w of PBool b \<Rightarrow> a = b | PInt n \<Rightarrow> (if a then 1 else 0) = n | _ \<Rightarrow> False)"
| "py_eq (PInt n) w =
     (case w of PInt m \<Rightarrow> n = m | PBool b \<Rightarrow> n = (if b then 1 else 0) | _ \<Rightarrow> False)"
| "py_eq (PStr a) w = (w = PStr a)"
| "py_eq (PList xs) w = (case w of PList ys \<Rightarrow> list_all2 py_eq xs ys | _ \<Rightarrow> False)"
| "py_eq (PTuple xs) w = (case w of PTuple ys \<Rightarrow> list_all2 py_eq xs ys | _ \<Rightarrow> False)"
| "py_eq (PDict xs) w =
     (case w of
        PDict ys \<Rightarrow>
          length xs = length ys \<and>
          list_all (\<lambda>(k, v). case map_of ys k of None \<Rightarrow> False | Some w' \<Rightarrow> py_eq v w') xs
      | _ \<Rightarrow> False)"
| "py_eq (PMetricDomainType a) w = (w = PMetricDomainType a)"
| "py_eq (PSemanticDomainType a) w = (w = PSemanticDomainType a)"
| "py_eq (PObject c s) w = (w = PObject c s)"

text \<open>A value in which no tuple occurs.\<close>

fun tuple_free :: "pyval \<Rightarrow> bool" where
  "tuple_free (PList xs) = list_all tuple_free xs"
| "tuple_free (PTuple xs) = False"
| "tuple_free (PDict kvs) = list_all (\<lambda>(k, v). tuple_free v) kvs"
| "tuple_free v = True"

section \<open>An environment for the examples\<close>

text \<open>
  Modelled from the spec: the module \<^verbatim>\<open>great_expectations.data_context.store\<close> with the
  in-memory backend (the default) and the database backend the spec names.
\<close>

definition ge_env :: py_env where
  "ge_env =
     \<lparr> importable = (\<lambda>m. m = ''great_expectations.data_context.store''),
       classes = (\<lambda>m c.
         if m = ''great_expectations.data_context.store'' then
           (if c = ''InMemoryStoreBackend''
            then Some \<lparr> class_qualname = c, database_store_backend = False \<rparr>
            else if c = ''DatabaseStoreBackend''
            then Some \<lparr> class_qualname = c, database_store_backend = True \<rparr>
            else None)
         else None) \<rparr>"

text \<open>Whether the configuration's backend class loads and is a database backend.\<close>

definition loads_database_backend :: "py_env \<Rightarrow> pydict \<Rightarrow> bool" where
  "loads_database_backend env sb =
     (case verify_dynamic_loading_support env
             (dict_get sb ''module_name'' (PStr ''great_expectations.data_context.store'')) of
        Inl e \<Rightarrow> False
      | Inr _ \<Rightarrow>
          (case load_class env (dict_get sb ''class_name'' (PStr ''InMemoryStoreBackend''))
                  (dict_get sb ''module_name'' (PStr ''great_expectations.data_context.store'')) of
             Inl e \<Rightarrow> False
           | Inr cls \<Rightarrow> database_store_backend cls))"

text \<open>Keys, a URN format and an empty in-memory store for the examples.\<close>

definition example_key :: "string \<Rightarrow> string \<Rightarrow> ValidationMetricIdentifier" where
  "example_key run m =
     \<lparr> run_id = \<lparr> run_name = run, run_time = ''t0'' \<rparr>, data_asset_name = ''asset'',
       expectation_suite_identifier = ''suite'', metric_name = m, metric_kwargs_id = ''id'' \<rparr>"

definition example_urn :: "ValidationMetricIdentifier \<Rightarrow> string" where
  "example_urn k =
     ''urn:great_expectations:validations:'' @ expectation_suite_identifier k @ '':''
       @ metric_name k"

definition empty_store :: Store where
  "empty_store =
     \<lparr> store_backend_config = None, store_name = PNone, store_backend = [], store_config = [] \<rparr>"

definition example_store :: Store where
  "example_store =
     snd (Store_set
            (snd (Store_set
                    (snd (Store_set empty_store (example_key ''run1'' ''mean'') (PInt 3)))
                    (example_key ''run2'' ''mean'') (PInt 5)))
            (example_key ''run1'' ''sizes'') (PTuple [PInt 4, PInt 2]))"


text \<open>
  The entries a constructor adds to a configuration for a database backend: the table name
  and the key columns, each only when the configuration has no such key.
\<close>

definition database_defaults :: "string \<Rightarrow> pydict \<Rightarrow> pydict" where
  "database_defaults table sb =
     (if ''table_name'' \<in> set (map fst sb) then [] else [(''table_name'', PStr table)])
     @ (if ''key_columns'' \<in> set (map fst sb) then [] else [(''key_columns'', key_columns_default)])"


section \<open>\<^verbatim>\<open>Domain\<close>: string form, equality, identifier and hash\<close>

text \<open>\<^verbatim>\<open>Domain.__repr__\<close> and \<^verbatim>\<open>__str__\<close>: \<^verbatim>\<open>json.dumps(self.to_json_dict(), indent=2)\<close>.\<close>

definition Domain_str :: "Domain \<Rightarrow> error + string" where
  "Domain_str self =
     (case to_json_dict self of
        Inl e \<Rightarrow> Inl e
      | Inr j \<Rightarrow> json_dumps (Some 2) False (PDict j))"

text \<open>
  The right-hand side of \<^verbatim>\<open>==\<close> is another \<^verbatim>\<open>Domain\<close> or a plain value. A \<^verbatim>\<open>Domain\<close> has
  the method \<^verbatim>\<open>to_json_dict\<close> and is a \<^verbatim>\<open>dict\<close>: the dictionary of its four fields, with
  the enumeration member under \<^verbatim>\<open>domain_type\<close>. A plain value has no such method, and is a
  \<^verbatim>\<open>dict\<close> when it is one.
\<close>

datatype operand = Other_Domain Domain | Other_value pyval

definition Domain_items :: "Domain \<Rightarrow> pydict" where
  "Domain_items d =
     [(''rule_name'', PStr (rule_name d)),
      (''domain_type'', PMetricDomainType (domain_type d)),
      (''domain_kwargs'', PDict (domain_kwargs d)),
      (''details'', PDict (details d))]"

definition operand_to_json_dict :: "operand \<Rightarrow> (error + pydict) option" where
  "operand_to_json_dict other =
     (case other of Other_Domain b \<Rightarrow> Some (to_json_dict b) | Other_value v \<Rightarrow> None)"

definition operand_as_dict :: "operand \<Rightarrow> pydict option" where
  "operand_as_dict other =
     (case other of
        Other_Domain b \<Rightarrow> Some (Domain_items b)
      | Other_value (PDict m) \<Rightarrow> Some m
      | Other_value _ \<Rightarrow> None)"

definition operand_str :: "operand \<Rightarrow> error + string" where
  "operand_str other =
     (case other of Other_Domain b \<Rightarrow> Domain_str b | Other_value v \<Rightarrow> Inr (py_str v))"

text \<open>
  \<^verbatim>\<open>Domain.__eq__\<close>: \<^verbatim>\<open>other is not None\<close>, and one of three tests, tried in this order
  until one holds: the canonical JSON forms are equal; \<^verbatim>\<open>other\<close> is a dictionary and the
  filtered canonical JSON equals the filtered \<^verbatim>\<open>other\<close>; the string forms are equal.
\<close>

definition Domain_eq :: "Domain \<Rightarrow> operand \<Rightarrow> error + bool" where
  "Domain_eq self other =
     (if other = Other_value PNone then Inr False
      else
        (case (case operand_to_json_dict other of
                 None \<Rightarrow> Inr False
               | Some other_json \<Rightarrow>
                   (case to_json_dict self of
                      Inl e \<Rightarrow> Inl e
                    | Inr ja \<Rightarrow>
                        (case other_json of
                           Inl e \<Rightarrow> Inl e
                         | Inr jb \<Rightarrow> Inr (py_eq (PDict ja) (PDict jb))))) of
           Inl e \<Rightarrow> Inl e
         | Inr True \<Rightarrow> Inr True
         | Inr False \<Rightarrow>
             (case (case operand_as_dict other of
                      None \<Rightarrow> Inr False
                    | Some m \<Rightarrow>
                        (case to_json_dict self of
                           Inl e \<Rightarrow> Inl e
                         | Inr ja \<Rightarrow>
                             Inr (py_eq (PDict (filter_properties_dict ja))
                                        (PDict (filter_properties_dict m))))) of
                Inl e \<Rightarrow> Inl e
              | Inr True \<Rightarrow> Inr True
              | Inr False \<Rightarrow>
                  (case Domain_str self of
                     Inl e \<Rightarrow> Inl e
                   | Inr s \<Rightarrow>
                       (case operand_str other of
                          Inl e \<Rightarrow> Inl e
                        | Inr s' \<Rightarrow> Inr (s = s'))))))"

text \<open>
  Modelled from the spec: \<^verbatim>\<open>IDDict.to_id\<close> of \<^verbatim>\<open>great_expectations.core\<close> is not among the
  sources. The spec describes the identifier as the hash of the canonical JSON string:
  canonicalize (stable key ordering), serialize, hash. The digest is the parameter
  \<open>digest\<close>; \<^verbatim>\<open>hash\<close> on the identifier, a string, is the parameter \<open>str_hash\<close>.
\<close>

definition IDDict_to_id :: "(string \<Rightarrow> string) \<Rightarrow> pydict \<Rightarrow> error + string" where
  "IDDict_to_id digest d =
     (case convert_to_json_serializable (PDict d) of
        Inl e \<Rightarrow> Inl e
      | Inr j \<Rightarrow>
          (case json_dumps None True j of
             Inl e \<Rightarrow> Inl e
           | Inr s \<Rightarrow> Inr (digest s)))"

definition Domain_id :: "(string \<Rightarrow> string) \<Rightarrow> Domain \<Rightarrow> error + string" where
  "Domain_id digest self =
     (case to_json_dict self of
        Inl e \<Rightarrow> Inl e
      | Inr j \<Rightarrow> IDDict_to_id digest j)"

definition Domain_hash ::
  "(string \<Rightarrow> int) \<Rightarrow> (string \<Rightarrow> string) \<Rightarrow> Domain \<Rightarrow> error + int" where
  "Domain_hash str_hash digest self =
     (case Domain_id digest self of
        Inl e \<Rightarrow> Inl e
      | Inr i \<Rightarrow> Inr (str_hash i))"

text \<open>
  Two values have the same contents up to the order of insertion of their keys when
  sorting the keys of every dictionary in them, at every level, makes them equal.
\<close>

fun sort_keys_deep :: "pyval \<Rightarrow> pyval" where
  "sort_keys_deep (PList xs) = PList (map sort_keys_deep xs)"
| "sort_keys_deep (PTuple xs) = PTuple (map sort_keys_deep xs)"
| "sort_keys_deep (PDict kvs) = PDict (sort_key fst (map (\<lambda>(k, v). (k, sort_keys_deep v)) kvs))"
| "sort_keys_deep v = v"

definition same_content :: "pyval \<Rightarrow> pyval \<Rightarrow> bool" where
  "same_content a b = (sort_keys_deep a = sort_keys_deep b)"

text \<open>The invariant of a \<^verbatim>\<open>Domain\<close>: its dictionaries have distinct keys at every level.\<close>

definition Domain_distinct_keys :: "Domain \<Rightarrow> bool" where
  "Domain_distinct_keys d =
     (distinct_keys (PDict (domain_kwargs d)) \<and> distinct_keys (PDict (details d)))"

text \<open>Two \<^verbatim>\<open>Domain\<close>s whose keyword arguments differ in the order of their keys only.\<close>

definition example_kwargs_1 :: pydict where
  "example_kwargs_1 =
     [(''column_A'', PStr ''a''), (''column_B'', PStr ''b''),
      (''options'', PDict [(''x'', PInt 1), (''y'', PList [PInt 2, PNone])])]"

definition example_kwargs_2 :: pydict where
  "example_kwargs_2 =
     [(''options'', PDict [(''y'', PList [PInt 2, PNone]), (''x'', PInt 1)]),
      (''column_B'', PStr ''b''), (''column_A'', PStr ''a'')]"

definition example_domain_1 :: Domain where
  "example_domain_1 =
     \<lparr> rule_name = ''r1'', domain_type = COLUMN_PAIR,
       domain_kwargs = [(''column_A'', PStr ''a''), (''column_B'', PStr ''b''),
                        (''options'', PDict [(''x'', PInt 1), (''y'', PList [PInt 2])])],
       details = [] \<rparr>"

definition example_domain_2 :: Domain where
  "example_domain_2 =
     \<lparr> rule_name = ''r1'', domain_type = COLUMN_PAIR,
       domain_kwargs = [(''options'', PDict [(''y'', PList [PInt 2]), (''x'', PInt 1)]),
                        (''column_B'', PStr ''b''), (''column_A'', PStr ''a'')],
       details = [] \<rparr>"

definition example_json_1 :: pydict where
  "example_json_1 =
     [(''rule_name'', PStr ''r1''), (''domain_type'', PStr ''column_pair''),
      (''domain_kwargs'',
       PDict [(''column_A'', PStr ''a''), (''column_B'', PStr ''b''),
              (''options'', PDict [(''x'', PInt 1), (''y'', PList [PInt 2])])])]"

section \<open>Properties of \<^verbatim>\<open>Domain\<close>\<close>

subsection \<open>Construction\<close>

lemma MetricDomainTypes_call_value:
  "MetricDomainTypes_call (MetricDomainTypes_value t) = Inr t"
  by (cases t) (simp_all add: MetricDomainTypes_call_def MetricDomainTypes_members_def)

lemma MetricDomainTypes_call_Inr:
  "MetricDomainTypes_call s = Inr t \<Longrightarrow> s = MetricDomainTypes_value t"
  by (auto simp: MetricDomainTypes_call_def MetricDomainTypes_members_def split: if_splits)

lemma MetricDomainTypes_call_Inl:
  "MetricDomainTypes_call s = Inl e \<Longrightarrow>
     e = ValueError (py_repr_str s @ '' is not a valid MetricDomainTypes'')"
  by (auto simp: MetricDomainTypes_call_def MetricDomainTypes_members_def split: if_splits)

lemma Domain_init_invalid_str:
  assumes "\<forall>t. s \<noteq> MetricDomainTypes_value t"
  shows "Domain_init rn (PStr s) kw dt =
           Inl (ValueError (py_repr_str s @ '' is not a valid MetricDomainTypes''))"
proof (cases "MetricDomainTypes_call s")
  case (Inl e)
  then show ?thesis
    using MetricDomainTypes_call_Inl [OF Inl] by (simp add: Domain_init_def)
next
  case (Inr t)
  then show ?thesis using assms MetricDomainTypes_call_Inr [OF Inr] by blast
qed

lemma Domain_init_not_member:
  assumes "\<forall>s. v \<noteq> PStr s" and "\<forall>t. v \<noteq> PMetricDomainType t"
  shows "Domain_init rn v kw dt =
           Inl (ValueError ('' '' @ not_supported_message v @ [CHR 0x0A] @ replicate 16 CHR '' ''))"
  using assms by (cases v) (simp_all add: Domain_init_def)

text \<open>
  C4. A \<^verbatim>\<open>domain_type\<close> that is neither a member nor a string equal to a member's value:
  construction raises, and the message is to name the value and its type. It does for an
  argument that is not a string (\<open>Domain_init_not_member\<close>). For a string the lookup
  raises the enumeration's own \<^verbatim>\<open>ValueError\<close>, which the handler (written for
  \<^verbatim>\<open>TypeError\<close> and \<^verbatim>\<open>KeyError\<close>) does not catch: at \<^verbatim>\<open>"not_a_type"\<close> the message
  is \<^verbatim>\<open>'not_a_type' is not a valid MetricDomainTypes\<close>, which names the value and not
  its type.
\<close>

theorem Domain_init_not_a_type:
  "Domain_init ''r1'' (PStr ''not_a_type'') None None =
     Inl (ValueError ([squote] @ ''not_a_type'' @ [squote] @ '' is not a valid MetricDomainTypes''))
   \<and> \<not> sublist (py_type_str (PStr ''not_a_type''))
          ([squote] @ ''not_a_type'' @ [squote] @ '' is not a valid MetricDomainTypes'')"
  by code_simp


text \<open>
  C6, as amended. A string equal to a member's value (case-sensitive) and the member
  itself construct, all other arguments equal, Domains with the same canonical JSON.
\<close>

theorem Domain_init_string_or_member:
  "\<exists>d1 d2. Domain_init rn (PStr (MetricDomainTypes_value t)) kw dt = Inr d1
         \<and> Domain_init rn (PMetricDomainType t) kw dt = Inr d2
         \<and> to_json_dict d1 = to_json_dict d2"
  by (simp add: Domain_init_def MetricDomainTypes_call_value Let_def)

text \<open>
  C6, as stated, fails for a member's name: \<^verbatim>\<open>Domain("r1", "COLUMN")\<close> raises, where
  \<^verbatim>\<open>Domain("r1", MetricDomainTypes.COLUMN)\<close> constructs.
\<close>

theorem Domain_init_member_name_rejected:
  "Domain_init ''r1'' (PStr (MetricDomainTypes_name COLUMN)) None None
     = Inl (ValueError ([squote] @ ''COLUMN'' @ [squote] @ '' is not a valid MetricDomainTypes''))
   \<and> Domain_init ''r1'' (PMetricDomainType COLUMN) None None
     = Inr \<lparr> rule_name = ''r1'', domain_type = COLUMN, domain_kwargs = [], details = [] \<rparr>"
  by code_simp


subsection \<open>The canonical JSON form\<close>

lemma str_lower_SemanticDomainTypes_value:
  "str_lower (SemanticDomainTypes_value t) = SemanticDomainTypes_value t"
  by (cases t) (simp_all add: str_lower_def char_lower_def)

lemma SemanticDomainTypes_call_value:
  "SemanticDomainTypes_call (SemanticDomainTypes_value t) = Inr t"
  by (cases t) (simp_all add: SemanticDomainTypes_call_def SemanticDomainTypes_members_def)

lemma semantic_type_value_denotes:
  "denotes_semantic_type v t \<Longrightarrow> semantic_type_value v = Inr (PStr (SemanticDomainTypes_value t))"
  by (cases v)
     (simp_all add: denotes_semantic_type_def str_lower_SemanticDomainTypes_value
        SemanticDomainTypes_call_value)

lemma map_err_semantic_types:
  assumes "list_all2 (\<lambda>(c, v) t. denotes_semantic_type v t) cols ts"
  shows "map_err (\<lambda>(column_name, semantic_type).
                           case semantic_type_value semantic_type of
                             Inl e \<Rightarrow> Inl e
                           | Inr s \<Rightarrow> Inr (column_name, s)) cols
         = Inr (map2 (\<lambda>(c, v) t. (c, PStr (SemanticDomainTypes_value t))) cols ts)"
  using assms
  by (induction cols ts rule: list_all2_induct)
     (auto simp: semantic_type_value_denotes)

lemma json_serializable_semantic_values:
  "json_serializable (PDict (map2 (\<lambda>(c, v) t. (c, PStr (f t))) cols ts))
   \<and> json_form (PDict (map2 (\<lambda>(c, v) t. (c, PStr (f t))) cols ts))
       = PDict (map2 (\<lambda>(c, v) t. (c, PStr (f t))) cols ts)"
proof -
  have "list_all (\<lambda>(k, v). json_serializable v) (map2 (\<lambda>(c, v) t. (c, PStr (f t))) cols ts)
      \<and> map (\<lambda>(k, v). (k, json_form v)) (map2 (\<lambda>(c, v) t. (c, PStr (f t))) cols ts)
          = map2 (\<lambda>(c, v) t. (c, PStr (f t))) cols ts"
  proof (induction cols arbitrary: ts)
    case Nil
    then show ?case by simp
  next
    case (Cons a cols)
    then show ?case by (cases ts) (auto split: prod.splits)
  qed
  then show ?thesis by simp
qed

lemma details_entry_inferred:
  assumes "list_all2 (\<lambda>(c, v) t. denotes_semantic_type v t) cols ts"
  shows "details_entry (INFERRED_SEMANTIC_TYPE_KEY, PDict cols)
         = Inr (INFERRED_SEMANTIC_TYPE_KEY,
                PDict (map2 (\<lambda>(c, v) t. (c, PStr (SemanticDomainTypes_value t))) cols ts))"
proof (cases "cols = []")
  case True
  then show ?thesis
    using assms by (simp add: details_entry_def convert_to_json_serializable_def)
next
  case False
  then show ?thesis
    using map_err_semantic_types [OF assms]
      json_serializable_semantic_values [of SemanticDomainTypes_value cols ts]
    by (simp add: details_entry_def inferred_semantic_types_def convert_to_json_serializable_def)
qed

lemma details_entry_key: "details_entry (k, v) = Inr (k', v') \<Longrightarrow> k' = k"
  by (auto simp: details_entry_def split: sum.splits if_splits)

lemma map_err_details_entry_lookup:
  assumes "map_err details_entry xs = Inr ys" and "map_of xs k = Some v"
  shows "\<exists>v'. details_entry (k, v) = Inr (k, v') \<and> map_of ys k = Some v'"
  using assms
proof (induction xs arbitrary: ys)
  case Nil
  then show ?case by simp
next
  case (Cons x xs)
  obtain k0 v0 where x: "x = (k0, v0)" by (cases x)
  from Cons.prems(1) obtain y ys' where
    y: "details_entry x = Inr y" and ys': "map_err details_entry xs = Inr ys'" and ys: "ys = y # ys'"
    by (auto split: sum.splits)
  obtain v0' where y': "y = (k0, v0')"
    using y x details_entry_key [of k0 v0 "fst y" "snd y"] by (cases y) auto
  show ?case
  proof (cases "k0 = k")
    case True
    then show ?thesis using Cons.prems(2) x y y' ys by auto
  next
    case False
    then show ?thesis using Cons.IH [OF ys'] Cons.prems(2) x y' ys by auto
  qed
qed

lemma map_err_length: "map_err f xs = Inr ys \<Longrightarrow> length ys = length xs"
  by (induction xs arbitrary: ys) (auto split: sum.splits)

text \<open>
  C7. When \<^verbatim>\<open>details\<close> holds the reserved key \<^verbatim>\<open>inferred_semantic_domain_type\<close> and each
  column under it denotes a semantic type (the member itself, or a string equal to its
  value up to case), the loop body accepts the entry, and the canonical JSON holds, under
  \<^verbatim>\<open>details\<close> and that key, each column with the member's string value.
\<close>

theorem to_json_dict_inferred_semantic_domain_type:
  assumes "map_of (details d) INFERRED_SEMANTIC_TYPE_KEY = Some (PDict cols)"
    and "list_all2 (\<lambda>(c, v) t. denotes_semantic_type v t) cols ts"
    and "to_json_dict d = Inr j"
  shows "details_entry (INFERRED_SEMANTIC_TYPE_KEY, PDict cols)
           = Inr (INFERRED_SEMANTIC_TYPE_KEY,
                  PDict (map2 (\<lambda>(c, v) t. (c, PStr (SemanticDomainTypes_value t))) cols ts))
       \<and> (\<exists>dt. map_of j ''details'' = Some (PDict dt)
               \<and> map_of dt INFERRED_SEMANTIC_TYPE_KEY
                   = Some (PDict (map2 (\<lambda>(c, v) t. (c, PStr (SemanticDomainTypes_value t))) cols ts)))"
proof -
  from assms(3) obtain dt kw where
    dt: "map_err details_entry (details d) = Inr dt"
    and j: "j = filter_properties_dict
                  [(''rule_name'', PStr (rule_name d)),
                   (''domain_type'', PStr (MetricDomainTypes_value (domain_type d))),
                   (''domain_kwargs'', kw),
                   (''details'', PDict dt)]"
    by (auto simp: to_json_dict_def split: sum.splits)
  have entry: "details_entry (INFERRED_SEMANTIC_TYPE_KEY, PDict cols)
           = Inr (INFERRED_SEMANTIC_TYPE_KEY,
                  PDict (map2 (\<lambda>(c, v) t. (c, PStr (SemanticDomainTypes_value t))) cols ts))"
    by (rule details_entry_inferred [OF assms(2)])
  from map_err_details_entry_lookup [OF dt assms(1)] entry
  have lookup: "map_of dt INFERRED_SEMANTIC_TYPE_KEY
        = Some (PDict (map2 (\<lambda>(c, v) t. (c, PStr (SemanticDomainTypes_value t))) cols ts))"
    by auto
  then have "dt \<noteq> []" by auto
  then have "map_of j ''details'' = Some (PDict dt)"
    by (simp add: j filter_properties_dict_def)
  with entry lookup show ?thesis by blast
qed

text \<open>
  The instance of C7 the spec gives: \<^verbatim>\<open>{"age": "NUMERIC"}\<close> becomes \<^verbatim>\<open>{"age": "numeric"}\<close>.
\<close>

theorem to_json_dict_inferred_semantic_domain_type_age:
  "to_json_dict \<lparr> rule_name = ''r1'', domain_type = COLUMN, domain_kwargs = [],
        details = [(''inferred_semantic_domain_type'', PDict [(''age'', PStr ''NUMERIC'')])] \<rparr>
     = Inr [(''rule_name'', PStr ''r1''), (''domain_type'', PStr ''column''),
            (''details'', PDict [(''inferred_semantic_domain_type'',
                                   PDict [(''age'', PStr ''numeric'')])])]
   \<and> (\<exists>dt. map_of [(''rule_name'', PStr ''r1''), (''domain_type'', PStr ''column''),
            (''details'', PDict [(''inferred_semantic_domain_type'',
                                   PDict [(''age'', PStr ''numeric'')])])] ''details'' = Some (PDict dt)
          \<and> map_of dt ''inferred_semantic_domain_type'' = Some (PDict [(''age'', PStr ''numeric'')]))"
proof -
  let ?d = "\<lparr> rule_name = ''r1'', domain_type = COLUMN, domain_kwargs = [],
        details = [(''inferred_semantic_domain_type'', PDict [(''age'', PStr ''NUMERIC'')])] \<rparr>"
  let ?j = "[(''rule_name'', PStr ''r1''), (''domain_type'', PStr ''column''),
            (''details'', PDict [(''inferred_semantic_domain_type'',
                                   PDict [(''age'', PStr ''numeric'')])])]"
  have run: "to_json_dict ?d = Inr ?j"
    by code_simp
  have a1: "map_of (details ?d) INFERRED_SEMANTIC_TYPE_KEY = Some (PDict [(''age'', PStr ''NUMERIC'')])"
    by (simp add: INFERRED_SEMANTIC_TYPE_KEY_def)
  have a2: "list_all2 (\<lambda>(c, v) t. denotes_semantic_type v t) [(''age'', PStr ''NUMERIC'')] [NUMERIC]"
    by code_simp
  from to_json_dict_inferred_semantic_domain_type [OF a1 a2 run]
  show ?thesis using run by (simp add: INFERRED_SEMANTIC_TYPE_KEY_def)
qed

lemma to_json_dict_Inl:
  assumes "to_json_dict d = Inl e"
  shows "\<not> (json_serializable (PDict (domain_kwargs d))
            \<and> (\<exists>dt. map_err details_entry (details d) = Inr dt))"
  using assms
  by (auto simp: to_json_dict_def DomainKwargs_to_json_dict_def convert_to_json_serializable_def
      split: sum.splits if_splits)

lemma to_json_dict_Inr:
  assumes "to_json_dict d = Inr j"
  shows "\<exists>dt. map_err details_entry (details d) = Inr dt
           \<and> json_serializable (PDict (domain_kwargs d))
           \<and> j = filter_properties_dict
                  [(''rule_name'', PStr (rule_name d)),
                   (''domain_type'', PStr (MetricDomainTypes_value (domain_type d))),
                   (''domain_kwargs'', json_form (PDict (domain_kwargs d))),
                   (''details'', PDict dt)]"
  using assms
  by (auto simp: to_json_dict_def DomainKwargs_to_json_dict_def convert_to_json_serializable_def
      split: sum.splits if_splits)

lemma MetricDomainTypes_value_nonempty: "MetricDomainTypes_value t \<noteq> []"
  by (cases t) simp_all

text \<open>
  C8. \<^verbatim>\<open>to_json_dict\<close> raises only when a value of \<^verbatim>\<open>domain_kwargs\<close> or an entry of
  \<^verbatim>\<open>details\<close> cannot be converted. Otherwise it returns a dictionary whose keys are, in
  this order, among \<^verbatim>\<open>rule_name\<close>, \<^verbatim>\<open>domain_type\<close>, \<^verbatim>\<open>domain_kwargs\<close> and \<^verbatim>\<open>details\<close>,
  with no null or empty value: \<^verbatim>\<open>rule_name\<close> is the name as a string, left out when empty;
  \<^verbatim>\<open>domain_type\<close> is the member's string value, always there; \<^verbatim>\<open>domain_kwargs\<close> and
  \<^verbatim>\<open>details\<close> are dictionaries, left out when empty. In particular
  \<^verbatim>\<open>Domain(rule_name="r1", domain_type="column", domain_kwargs={"column": "age"})\<close> yields
  exactly \<^verbatim>\<open>{"rule_name": "r1", "domain_type": "column", "domain_kwargs": {"column": "age"}}\<close>.
\<close>

theorem to_json_dict_shape:
  "(case to_json_dict d of
      Inl e \<Rightarrow>
        \<not> (json_serializable (PDict (domain_kwargs d))
           \<and> (\<exists>dt. map_err details_entry (details d) = Inr dt))
    | Inr j \<Rightarrow>
        subseq (map fst j) [''rule_name'', ''domain_type'', ''domain_kwargs'', ''details'']
      \<and> list_all (\<lambda>(k, v). \<not> null_or_empty v) j
      \<and> map_of j ''rule_name'' = (if rule_name d = [] then None else Some (PStr (rule_name d)))
      \<and> map_of j ''domain_type'' = Some (PStr (MetricDomainTypes_value (domain_type d)))
      \<and> map_of j ''domain_kwargs''
          = (if domain_kwargs d = [] then None
             else Some (PDict (map (\<lambda>(k, v). (k, json_form v)) (domain_kwargs d))))
      \<and> (\<exists>dt. map_err details_entry (details d) = Inr dt
             \<and> map_of j ''details'' = (if details d = [] then None else Some (PDict dt))))
   \<and> (\<exists>d0. Domain_init ''r1'' (PStr ''column'') (Some [(''column'', PStr ''age'')]) None = Inr d0
          \<and> to_json_dict d0
              = Inr [(''rule_name'', PStr ''r1''), (''domain_type'', PStr ''column''),
                     (''domain_kwargs'', PDict [(''column'', PStr ''age'')])])"
proof
  show "case to_json_dict d of
      Inl e \<Rightarrow>
        \<not> (json_serializable (PDict (domain_kwargs d))
           \<and> (\<exists>dt. map_err details_entry (details d) = Inr dt))
    | Inr j \<Rightarrow>
        subseq (map fst j) [''rule_name'', ''domain_type'', ''domain_kwargs'', ''details'']
      \<and> list_all (\<lambda>(k, v). \<not> null_or_empty v) j
      \<and> map_of j ''rule_name'' = (if rule_name d = [] then None else Some (PStr (rule_name d)))
      \<and> map_of j ''domain_type'' = Some (PStr (MetricDomainTypes_value (domain_type d)))
      \<and> map_of j ''domain_kwargs''
          = (if domain_kwargs d = [] then None
             else Some (PDict (map (\<lambda>(k, v). (k, json_form v)) (domain_kwargs d))))
      \<and> (\<exists>dt. map_err details_entry (details d) = Inr dt
             \<and> map_of j ''details'' = (if details d = [] then None else Some (PDict dt)))"
  proof (cases "to_json_dict d")
    case (Inl e)
    then show ?thesis using to_json_dict_Inl [OF Inl] by simp
  next
    case (Inr j)
    from to_json_dict_Inr [OF Inr] obtain dt where
      dt: "map_err details_entry (details d) = Inr dt"
      and j: "j = filter_properties_dict
                  [(''rule_name'', PStr (rule_name d)),
                   (''domain_type'', PStr (MetricDomainTypes_value (domain_type d))),
                   (''domain_kwargs'', json_form (PDict (domain_kwargs d))),
                   (''details'', PDict dt)]"
      by blast
    have len: "(dt = []) = (details d = [])"
      using map_err_length [OF dt] by auto
    show ?thesis
      using dt len MetricDomainTypes_value_nonempty [of "domain_type d"]
      by (simp add: Inr j filter_properties_dict_def)
  qed
next
  show "\<exists>d0. Domain_init ''r1'' (PStr ''column'') (Some [(''column'', PStr ''age'')]) None = Inr d0
          \<and> to_json_dict d0
              = Inr [(''rule_name'', PStr ''r1''), (''domain_type'', PStr ''column''),
                     (''domain_kwargs'', PDict [(''column'', PStr ''age'')])]"
  proof -
    have "Domain_init ''r1'' (PStr ''column'') (Some [(''column'', PStr ''age'')]) None
            = Inr \<lparr> rule_name = ''r1'', domain_type = COLUMN,
                     domain_kwargs = [(''column'', PStr ''age'')], details = [] \<rparr>"
      by code_simp
    moreover have "to_json_dict \<lparr> rule_name = ''r1'', domain_type = COLUMN,
                     domain_kwargs = [(''column'', PStr ''age'')], details = [] \<rparr>
              = Inr [(''rule_name'', PStr ''r1''), (''domain_type'', PStr ''column''),
                     (''domain_kwargs'', PDict [(''column'', PStr ''age'')])]"
      by code_simp
    ultimately show ?thesis by simp
  qed
qed

section \<open>Decoding inverts encoding\<close>

subsection \<open>Strings and numbers\<close>

lemma hex_val_digit_char: "\<forall>d\<in>set [0..<16]. hex_val (digit_char d) = Some d"
  by code_simp

lemma hex_val_digit_char': "d < 16 \<Longrightarrow> hex_val (digit_char d) = Some d"
  using hex_val_digit_char by simp

lemma scan_string_escape_char:
  "scan_string (escape_char c @ cs) =
     (case scan_string cs of None \<Rightarrow> None | Some (s, rest) \<Rightarrow> Some (c # s, rest))"
proof -
  have hi: "hex_val (digit_char (of_char c div 16)) = Some (of_char c div 16)"
    by (rule hex_val_digit_char') (simp add: less_mult_imp_div_less)
  have lo: "hex_val (digit_char (of_char c mod 16)) = Some (of_char c mod 16)"
    by (rule hex_val_digit_char') simp
  have rebuild: "char_of (16 * ((of_char c :: nat) div 16) + of_char c mod 16) = c"
    by simp
  have zero: "hex_val CHR ''0'' = Some 0"
    by (simp add: hex_val_def)
  show ?thesis
    by (simp add: escape_char_def hex2_def unescape_def dquote_def backslash_def hi lo rebuild
        zero split: option.splits)
qed

lemma scan_string_encode:
  "scan_string (concat (map escape_char s) @ dquote # rest) = Some (s, rest)"
  by (induction s) (simp_all add: scan_string_escape_char)

lemma digit_char_facts:
  "\<forall>d\<in>set [0..<10]. is_digit (digit_char d) \<and> digit_val (digit_char d) = d
      \<and> (digit_char d = CHR ''0'') = (d = 0) \<and> digit_char d \<noteq> CHR ''-''"
  by code_simp

lemma digit_char_digit:
  assumes "d < 10"
  shows "is_digit (digit_char d)" and "digit_val (digit_char d) = d"
    and "(digit_char d = CHR ''0'') = (d = 0)" and "digit_char d \<noteq> CHR ''-''"
  using digit_char_facts assms by simp_all

lemma show_nat_digits: "list_all is_digit (show_nat n)"
proof (induction n rule: show_nat.induct)
  case (1 n)
  show ?case
  proof (cases "n < 10")
    case True
    then show ?thesis by (subst show_nat.simps) (simp add: digit_char_digit)
  next
    case False
    then show ?thesis using 1 by (subst show_nat.simps) (simp add: digit_char_digit)
  qed
qed

lemma show_nat_not_Nil: "show_nat n \<noteq> []"
  by (subst show_nat.simps) simp

lemma digits_val_snoc: "digits_val (ds @ [c]) = 10 * digits_val ds + digit_val c"
  by (simp add: digits_val_def)

lemma digits_val_show_nat: "digits_val (show_nat n) = n"
proof (induction n rule: show_nat.induct)
  case (1 n)
  show ?case
  proof (cases "n < 10")
    case True
    then show ?thesis
      by (subst show_nat.simps) (simp add: digit_char_digit digits_val_def)
  next
    case False
    then show ?thesis
      using 1 by (subst show_nat.simps) (simp add: digits_val_snoc digit_char_digit)
  qed
qed

lemma show_nat_0: "show_nat 0 = ''0''"
  by (subst show_nat.simps) (simp add: digit_char_def)

lemma hd_show_nat: "0 < n \<Longrightarrow> hd (show_nat n) \<noteq> CHR ''0''"
proof (induction n rule: show_nat.induct)
  case (1 n)
  show ?case
  proof (cases "n < 10")
    case True
    then show ?thesis using "1.prems"
      by (subst show_nat.simps) (simp add: digit_char_digit)
  next
    case False
    then have "0 < n div 10" by simp
    then show ?thesis
      using 1 False by (subst show_nat.simps) (simp add: show_nat_not_Nil)
  qed
qed

lemma takeWhile_digits:
  assumes "list_all is_digit ds" and "num_end rest"
  shows "takeWhile is_digit (ds @ rest) = ds" and "dropWhile is_digit (ds @ rest) = rest"
proof -
  have r: "takeWhile is_digit rest = []" "dropWhile is_digit rest = rest"
    using assms(2) by (cases rest; simp add: num_end_def)+
  show "takeWhile is_digit (ds @ rest) = ds" "dropWhile is_digit (ds @ rest) = rest"
    using assms(1) r by (induction ds) simp_all
qed

lemma scan_digits_show_nat:
  assumes "num_end rest"
  shows "scan_digits (show_nat n @ rest) = Some (n, rest)"
proof (cases "n = 0")
  case True
  then show ?thesis by (simp add: show_nat_0 scan_digits_def)
next
  case False
  obtain c cs where cs: "show_nat n = c # cs"
    using show_nat_not_Nil [of n] by (cases "show_nat n") auto
  have c0: "c \<noteq> CHR ''0''" using hd_show_nat [of n] False cs by simp
  have dig: "list_all is_digit (c # cs)" using show_nat_digits [of n] cs by simp
  have tw: "takeWhile is_digit ((c # cs) @ rest) = c # cs"
    and dw: "dropWhile is_digit ((c # cs) @ rest) = rest"
    using takeWhile_digits [OF dig assms] by simp_all
  have "digits_val (c # cs) = n" using digits_val_show_nat [of n] cs by simp
  then show ?thesis
    using c0 dig tw dw by (simp add: scan_digits_def cs)
qed

lemma float_follows_num_end: "num_end rest \<Longrightarrow> \<not> float_follows rest"
  by (auto simp: num_end_def float_follows_def split: list.splits)

lemma hd_show_nat_not_minus: "hd (show_nat n) \<noteq> CHR ''-''"
  using show_nat_digits [of n] show_nat_not_Nil [of n]
  by (cases "show_nat n") (auto simp: is_digit_def)

lemma scan_number_show_int:
  assumes "num_end rest"
  shows "scan_number (show_int i @ rest) = Inr (i, rest)"
proof (cases "i < 0")
  case True
  then show ?thesis
    using scan_digits_show_nat [OF assms, of "nat (- i)"] float_follows_num_end [OF assms]
    by (simp add: show_int_def scan_number_def)
next
  case False
  obtain c cs where cs: "show_nat (nat i) = c # cs"
    using show_nat_not_Nil [of "nat i"] by (cases "show_nat (nat i)") auto
  have "c \<noteq> CHR ''-''" using hd_show_nat_not_minus [of "nat i"] cs by simp
  then show ?thesis
    using False scan_digits_show_nat [OF assms, of "nat i"] float_follows_num_end [OF assms] cs
    by (simp add: show_int_def scan_number_def)
qed

lemma show_int_shape:
  "\<exists>c cs. show_int i = c # cs \<and> (is_digit c \<or> (c = CHR ''-'' \<and> (\<exists>d ds. cs = d # ds \<and> is_digit d)))"
proof (cases "i < 0")
  case True
  obtain d ds where "show_nat (nat (- i)) = d # ds"
    using show_nat_not_Nil [of "nat (- i)"] by (cases "show_nat (nat (- i))") auto
  then show ?thesis using True show_nat_digits [of "nat (- i)"] by (simp add: show_int_def)
next
  case False
  obtain d ds where "show_nat (nat i) = d # ds"
    using show_nat_not_Nil [of "nat i"] by (cases "show_nat (nat i)") auto
  then show ?thesis using False show_nat_digits [of "nat i"] by (simp add: show_int_def)
qed

lemma is_digit_not_special:
  assumes "is_digit c"
  shows "\<not> is_ws c" "c \<noteq> CHR ''{''" "c \<noteq> CHR ''}''" "c \<noteq> CHR ''[''" "c \<noteq> CHR '']''"
    "c \<noteq> CHR '',''" "c \<noteq> CHR '':''" "c \<noteq> dquote" "c \<noteq> CHR ''n''" "c \<noteq> CHR ''t''"
    "c \<noteq> CHR ''f''" "c \<noteq> CHR ''N''" "c \<noteq> CHR ''I''" "c \<noteq> CHR ''-''"
  using assms by (auto simp: is_digit_def is_ws_def dquote_def)

lemma lex_digit:
  assumes "is_digit c"
  shows "lex (c # cs) =
           (case scan_number (c # cs) of
              Inl e \<Rightarrow> Inl e
            | Inr (i, rest) \<Rightarrow> tcons (TLit (PInt i)) (lex rest))"
  by (subst lex.simps)
     (simp del: lex.simps split del: if_split add: is_digit_not_special [OF assms] assms)

lemma lex_minus:
  assumes "is_digit d"
  shows "lex (CHR ''-'' # d # ds) =
           (case scan_number (CHR ''-'' # d # ds) of
              Inl e \<Rightarrow> Inl e
            | Inr (i, rest) \<Rightarrow> tcons (TLit (PInt i)) (lex rest))"
  by (subst lex.simps)
     (simp del: lex.simps split del: if_split add: is_digit_not_special [OF assms] is_ws_def dquote_def)

lemma lex_number_start:
  assumes "is_digit c \<or> (c = CHR ''-'' \<and> (\<exists>d ds. cs = d # ds \<and> is_digit d))"
  shows "lex (c # cs) =
           (case scan_number (c # cs) of
              Inl e \<Rightarrow> Inl e
            | Inr (i, rest) \<Rightarrow> tcons (TLit (PInt i)) (lex rest))"
  using assms lex_digit [of c cs] lex_minus by blast

lemma lex_show_int:
  assumes "num_end rest"
  shows "lex (show_int i @ rest) = tcons (TLit (PInt i)) (lex rest)"
proof -
  from show_int_shape [of i] obtain c cs where
    cs: "show_int i = c # cs"
    and c: "is_digit c \<or> (c = CHR ''-'' \<and> (\<exists>d ds. cs = d # ds \<and> is_digit d))"
    by blast
  have sn: "scan_number (c # (cs @ rest)) = Inr (i, rest)"
    using scan_number_show_int [OF assms, of i] by (simp only: cs append_Cons)
  have c': "is_digit c \<or> (c = CHR ''-'' \<and> (\<exists>d ds. cs @ rest = d # ds \<and> is_digit d))"
    using c by auto
  show ?thesis
    by (simp only: cs append_Cons lex_number_start [OF c'] sn sum.case prod.case)
qed

subsection \<open>The scanner on an encoded value\<close>

lemma tapp_simps [simp]:
  "tapp [] r = r" "tapp (t # ts) r = tcons t (tapp ts r)" "tapp (a @ b) r = tapp a (tapp b r)"
  by (simp_all add: tapp_def)

lemma lex_ws: "list_all is_ws ws \<Longrightarrow> lex (ws @ rest) = lex rest"
  by (induction ws) (simp_all add: lex.simps)

lemma lex_structural:
  "lex (CHR ''{'' # cs) = tcons TLBrace (lex cs)"
  "lex (CHR ''}'' # cs) = tcons TRBrace (lex cs)"
  "lex (CHR ''['' # cs) = tcons TLBracket (lex cs)"
  "lex (CHR '']'' # cs) = tcons TRBracket (lex cs)"
  "lex (CHR '','' # cs) = tcons TComma (lex cs)"
  "lex (CHR '':'' # cs) = tcons TColon (lex cs)"
  by (subst lex.simps, simp add: is_ws_def)+

lemma lex_literals:
  "lex (''null'' @ cs) = tcons (TLit PNone) (lex cs)"
  "lex (''true'' @ cs) = tcons (TLit (PBool True)) (lex cs)"
  "lex (''false'' @ cs) = tcons (TLit (PBool False)) (lex cs)"
  by (simp_all add: lex.simps is_ws_def dquote_def)

lemma lex_string:
  "lex (encode_basestring_ascii s @ rest) = tcons (TLit (PStr s)) (lex rest)"
  by (subst encode_basestring_ascii_def, simp, subst lex.simps)
     (simp add: is_ws_def dquote_def scan_string_encode [unfolded dquote_def])

lemma newline_indent_ws: "list_all is_ws (newline_indent ind lvl)"
  by (cases ind) (simp_all add: newline_indent_def is_ws_def list_all_iff)

lemma lex_item_separator: "lex (item_separator ind lvl @ r) = tcons TComma (lex r)"
proof (cases ind)
  case None
  then show ?thesis
    using lex_ws [of "'' ''" r]
    by (simp add: item_separator_def lex_structural is_ws_def)
next
  case (Some n)
  then show ?thesis
    using lex_ws [OF newline_indent_ws, of ind lvl r]
    by (simp add: item_separator_def lex_structural)
qed

lemma lex_key_separator: "lex (key_separator @ r) = tcons TColon (lex r)"
  using lex_ws [of "'' ''" r] by (simp add: key_separator_def lex_structural is_ws_def)

lemma num_end_item_separator: "num_end (item_separator ind lvl @ r)"
  by (cases ind) (simp_all add: item_separator_def num_end_def is_digit_def)

lemma num_end_close:
  "num_end (newline_indent ind lvl @ CHR '']'' # r)"
  "num_end (newline_indent ind lvl @ CHR ''}'' # r)"
  by (cases ind; simp add: newline_indent_def num_end_def is_digit_def)+

lemma lex_join:
  assumes "\<And>x r. x \<in> set xs \<Longrightarrow> num_end r \<Longrightarrow> lex (enc x @ r) = tapp (tok x) (lex r)"
    and "xs \<noteq> []" and "num_end tail"
  shows "lex (join (item_separator ind lvl) (map enc xs) @ tail)
           = tapp (join [TComma] (map tok xs)) (lex tail)"
  using assms
proof (induction xs)
  case Nil
  then show ?case by simp
next
  case (Cons x xs)
  show ?case
  proof (cases xs)
    case Nil
    then show ?thesis using Cons.prems by simp
  next
    case (Cons y ys)
    have IH: "lex (join (item_separator ind lvl) (map enc xs) @ tail)
           = tapp (join [TComma] (map tok xs)) (lex tail)"
      using Cons.IH Cons.prems Cons by simp
    have "lex (enc x @ item_separator ind lvl @ join (item_separator ind lvl) (map enc xs) @ tail)
        = tapp (tok x) (lex (item_separator ind lvl @ join (item_separator ind lvl) (map enc xs) @ tail))"
      using Cons.prems(1) [of x] num_end_item_separator by simp
    then show ?thesis
      using IH Cons by (simp add: lex_item_separator)
  qed
qed

lemma lex_json_encode:
  "json_serializable v \<Longrightarrow> num_end rest \<Longrightarrow>
     lex (json_encode ind False lvl v @ rest) = tapp (tokens_of v) (lex rest)"
proof (induction v arbitrary: lvl rest)
  case PNone
  then show ?case using lex_literals(1) [of rest] by simp
next
  case (PBool b)
  then show ?case using lex_literals(2,3) [of rest] by (cases b) simp_all
next
  case (PInt i)
  then show ?case by (simp add: lex_show_int)
next
  case (PStr s)
  then show ?case by (simp add: lex_string)
next
  case (PList xs)
  show ?case
  proof (cases "xs = []")
    case True
    then show ?thesis by (simp add: lex_structural)
  next
    case False
    have elems: "\<And>x r. x \<in> set xs \<Longrightarrow> num_end r \<Longrightarrow>
        lex (json_encode ind False (Suc lvl) x @ r) = tapp (tokens_of x) (lex r)"
      using PList.IH PList.prems(1) by (simp add: list_all_iff)
    have "lex (join (item_separator ind (Suc lvl)) (map (json_encode ind False (Suc lvl)) xs)
                @ newline_indent ind lvl @ CHR '']'' # rest)
          = tapp (join [TComma] (map tokens_of xs)) (lex (newline_indent ind lvl @ CHR '']'' # rest))"
      by (rule lex_join [OF elems False num_end_close(1)])
    then show ?thesis
      using False lex_ws [OF newline_indent_ws]
      by (simp add: lex_structural)
  qed
next
  case (PTuple xs)
  show ?case
  proof (cases "xs = []")
    case True
    then show ?thesis by (simp add: lex_structural)
  next
    case False
    have elems: "\<And>x r. x \<in> set xs \<Longrightarrow> num_end r \<Longrightarrow>
        lex (json_encode ind False (Suc lvl) x @ r) = tapp (tokens_of x) (lex r)"
      using PTuple.IH PTuple.prems(1) by (simp add: list_all_iff)
    have "lex (join (item_separator ind (Suc lvl)) (map (json_encode ind False (Suc lvl)) xs)
                @ newline_indent ind lvl @ CHR '']'' # rest)
          = tapp (join [TComma] (map tokens_of xs)) (lex (newline_indent ind lvl @ CHR '']'' # rest))"
      by (rule lex_join [OF elems False num_end_close(1)])
    then show ?thesis
      using False lex_ws [OF newline_indent_ws]
      by (simp add: lex_structural)
  qed
next
  case (PDict kvs)
  show ?case
  proof (cases "kvs = []")
    case True
    then show ?thesis by (simp add: lex_structural)
  next
    case False
    let ?enc = "\<lambda>(k, v). encode_basestring_ascii k @ key_separator @ json_encode ind False (Suc lvl) v"
    let ?tok = "\<lambda>(k, v). TLit (PStr k) # TColon # tokens_of v"
    have elems: "\<And>x r. x \<in> set kvs \<Longrightarrow> num_end r \<Longrightarrow> lex (?enc x @ r) = tapp (?tok x) (lex r)"
    proof -
      fix x r assume x: "x \<in> set kvs" and r: "num_end r"
      obtain k v where kv: "x = (k, v)" by (cases x)
      have sv: "json_serializable v" using PDict.prems(1) x kv by (auto simp: list_all_iff)
      have snd: "v \<in> Basic_BNFs.snds x" using kv by simp
      have "lex (json_encode ind False (Suc lvl) v @ r) = tapp (tokens_of v) (lex r)"
        by (rule PDict.IH [OF x snd sv r])
      then show "lex (?enc x @ r) = tapp (?tok x) (lex r)"
        by (simp add: kv lex_string lex_key_separator)
    qed
    have "lex (join (item_separator ind (Suc lvl)) (map ?enc kvs)
                @ newline_indent ind lvl @ CHR ''}'' # rest)
          = tapp (join [TComma] (map ?tok kvs)) (lex (newline_indent ind lvl @ CHR ''}'' # rest))"
      by (rule lex_join [OF elems False num_end_close(2)])
    then show ?thesis
      using False lex_ws [OF newline_indent_ws]
      by (simp add: lex_structural)
  qed
qed simp_all

subsection \<open>The parser on the tokens of a value\<close>

lemma dict_setitem_new: "k \<notin> set (map fst kvs) \<Longrightarrow> dict_setitem kvs k v = kvs @ [(k, v)]"
  by (induction kvs) auto

lemma tokens_of_head:
  "\<exists>t ts. tokens_of v = t # ts \<and> t \<noteq> TRBracket \<and> t \<noteq> TRBrace"
  by (cases v) simp_all

lemma parse_step_WantValueOrClose:
  "t \<noteq> TRBracket \<Longrightarrow> parse_step t (st, WantValueOrClose) = open_value t st"
  by (cases t) (simp_all split: list.splits frame.splits)

lemma parse_run_append:
  "parse_run (a @ b) s = (case parse_run a s of None \<Rightarrow> None | Some s' \<Rightarrow> parse_run b s')"
  by (induction a arbitrary: s) (simp_all split: option.splits)

lemma value_parsedD:
  "value_parsed x \<Longrightarrow> m = WantValue \<or> m = WantValueOrClose \<Longrightarrow>
     parse_run (tokens_of x @ ts) (st, m) =
         (case push_value (json_form x) st of None \<Rightarrow> None | Some s' \<Rightarrow> parse_run ts s')"
  unfolding value_parsed_def by blast

lemma parse_run_elems:
  assumes "\<And>x. x \<in> set xs \<Longrightarrow> value_parsed x"
    and "xs \<noteq> []" and "m = WantValue \<or> m = WantValueOrClose"
  shows "parse_run (join [TComma] (map tokens_of xs) @ ts) (FArr acc # st, m)
           = parse_run ts (FArr (acc @ map json_form xs) # st, WantCommaOrClose)"
  using assms
proof (induction xs arbitrary: acc m)
  case Nil
  then show ?case by simp
next
  case (Cons x xs)
  have px: "value_parsed x" using Cons.prems(1) by simp
  show ?case
  proof (cases xs)
    case Nil
    then show ?thesis
      using value_parsedD [OF px Cons.prems(3), of ts "FArr acc # st"] by simp
  next
    case (Cons y ys)
    have IH: "parse_run (join [TComma] (map tokens_of xs) @ ts) (FArr (acc @ [json_form x]) # st, WantValue)
           = parse_run ts (FArr ((acc @ [json_form x]) @ map json_form xs) # st, WantCommaOrClose)"
      using Cons.IH [of WantValue "acc @ [json_form x]"] Cons.prems(1) Cons by simp
    have "parse_run (tokens_of x @ TComma # join [TComma] (map tokens_of xs) @ ts) (FArr acc # st, m)
          = parse_run (TComma # join [TComma] (map tokens_of xs) @ ts)
              (FArr (acc @ [json_form x]) # st, WantCommaOrClose)"
      using value_parsedD [OF px Cons.prems(3), of _ "FArr acc # st"] by simp
    then show ?thesis using IH Cons by simp
  qed
qed

lemma parse_run_entries:
  assumes "\<And>k v. (k, v) \<in> set kvs \<Longrightarrow> value_parsed v"
    and "kvs \<noteq> []" and "m = WantKeyOrClose \<or> m = WantKey"
    and "distinct (map fst acc @ map fst kvs)"
  shows "parse_run (join [TComma] (map (\<lambda>(k, v). TLit (PStr k) # TColon # tokens_of v) kvs) @ ts)
            (FObj acc # st, m)
           = parse_run ts (FObj (acc @ map (\<lambda>(k, v). (k, json_form v)) kvs) # st, WantCommaOrClose)"
  using assms
proof (induction kvs arbitrary: acc m)
  case Nil
  then show ?case by simp
next
  case (Cons kv kvs)
  obtain k v where kv: "kv = (k, v)" by (cases kv)
  have pv: "value_parsed v" using Cons.prems(1) [of k v] kv by simp
  have knew: "k \<notin> set (map fst acc)" using Cons.prems(4) kv by auto
  have key: "parse_step (TLit (PStr k)) (FObj acc # st, m) = Some (FObjKey acc k # st, WantColon)"
    using Cons.prems(3) by auto
  have val: "\<And>ts'. parse_run (tokens_of v @ ts') (FObjKey acc k # st, WantValue)
                = parse_run ts' (FObj (acc @ [(k, json_form v)]) # st, WantCommaOrClose)"
    using value_parsedD [OF pv, of WantValue _ "FObjKey acc k # st"] dict_setitem_new [OF knew]
    by simp
  note outer_IH = Cons.IH and outer_prems = Cons.prems
  show ?case
  proof (cases "kvs = []")
    case True
    then show ?thesis using key val by (simp add: kv)
  next
    case False
    then obtain y ys where ys: "kvs = y # ys" by (cases kvs) auto
    have d: "distinct (map fst (acc @ [(k, json_form v)]) @ map fst kvs)"
      using outer_prems(4) kv by auto
    have IH: "parse_run (join [TComma] (map (\<lambda>(k, v). TLit (PStr k) # TColon # tokens_of v) kvs) @ ts)
            (FObj (acc @ [(k, json_form v)]) # st, WantKey)
           = parse_run ts (FObj ((acc @ [(k, json_form v)]) @ map (\<lambda>(k, v). (k, json_form v)) kvs) # st,
                 WantCommaOrClose)"
    proof (rule outer_IH)
      show "\<And>k v. (k, v) \<in> set kvs \<Longrightarrow> value_parsed v"
        using outer_prems(1) by auto
      show "kvs \<noteq> []" by (rule False)
      show "WantKey = WantKeyOrClose \<or> WantKey = WantKey" by simp
      show "distinct (map fst (acc @ [(k, json_form v)]) @ map fst kvs)" by (rule d)
    qed
    have "parse_run (join [TComma] (map (\<lambda>(k, v). TLit (PStr k) # TColon # tokens_of v) (kv # kvs)) @ ts)
            (FObj acc # st, m)
          = parse_run (TComma # join [TComma] (map (\<lambda>(k, v). TLit (PStr k) # TColon # tokens_of v) kvs) @ ts)
              (FObj (acc @ [(k, json_form v)]) # st, WantCommaOrClose)"
      using key val [of "TComma # join [TComma] (map (\<lambda>(k, v). TLit (PStr k) # TColon # tokens_of v) kvs) @ ts"]
      by (simp add: kv ys)
    also have "\<dots> = parse_run (join [TComma] (map (\<lambda>(k, v). TLit (PStr k) # TColon # tokens_of v) kvs) @ ts)
            (FObj (acc @ [(k, json_form v)]) # st, WantKey)"
      by simp
    finally show ?thesis using IH by (simp add: kv)
  qed
qed

lemma value_parsed_json_form:
  "json_serializable v \<Longrightarrow> distinct_keys v \<Longrightarrow> value_parsed v"
proof (induction v)
  case (PList xs)
  have elems: "\<And>x. x \<in> set xs \<Longrightarrow> value_parsed x"
    using PList by (simp add: list_all_iff)
  show ?case
    unfolding value_parsed_def
  proof (intro allI impI)
    fix ts st m assume m: "m = WantValue \<or> m = WantValueOrClose"
    have op: "parse_step TLBracket (st, m) = Some (FArr [] # st, WantValueOrClose)"
      using m by auto
    show "parse_run (tokens_of (PList xs) @ ts) (st, m) =
         (case push_value (json_form (PList xs)) st of None \<Rightarrow> None | Some s' \<Rightarrow> parse_run ts s')"
    proof (cases "xs = []")
      case True
      then show ?thesis using op by simp
    next
      case False
      have "parse_run (join [TComma] (map tokens_of xs) @ TRBracket # ts) (FArr [] # st, WantValueOrClose)
           = parse_run (TRBracket # ts) (FArr ([] @ map json_form xs) # st, WantCommaOrClose)"
        by (rule parse_run_elems [OF elems False]) simp_all
      then show ?thesis using op by simp
    qed
  qed
next
  case (PTuple xs)
  have elems: "\<And>x. x \<in> set xs \<Longrightarrow> value_parsed x"
    using PTuple by (simp add: list_all_iff)
  show ?case
    unfolding value_parsed_def
  proof (intro allI impI)
    fix ts st m assume m: "m = WantValue \<or> m = WantValueOrClose"
    have op: "parse_step TLBracket (st, m) = Some (FArr [] # st, WantValueOrClose)"
      using m by auto
    show "parse_run (tokens_of (PTuple xs) @ ts) (st, m) =
         (case push_value (json_form (PTuple xs)) st of None \<Rightarrow> None | Some s' \<Rightarrow> parse_run ts s')"
    proof (cases "xs = []")
      case True
      then show ?thesis using op by simp
    next
      case False
      have "parse_run (join [TComma] (map tokens_of xs) @ TRBracket # ts) (FArr [] # st, WantValueOrClose)
           = parse_run (TRBracket # ts) (FArr ([] @ map json_form xs) # st, WantCommaOrClose)"
        by (rule parse_run_elems [OF elems False]) simp_all
      then show ?thesis using op by simp
    qed
  qed
next
  case (PDict kvs)
  have elems: "\<And>k v. (k, v) \<in> set kvs \<Longrightarrow> value_parsed v"
  proof -
    fix k v assume kv: "(k, v) \<in> set kvs"
    have "v \<in> Basic_BNFs.snds (k, v)" by simp
    moreover have "json_serializable v" "distinct_keys v"
      using PDict.prems kv by (auto simp: list_all_iff)
    ultimately show "value_parsed v" using PDict.IH [OF kv] by blast
  qed
  have d: "distinct (map fst [] @ map fst kvs)" using PDict.prems(2) by simp
  show ?case
    unfolding value_parsed_def
  proof (intro allI impI)
    fix ts st m assume m: "m = WantValue \<or> m = WantValueOrClose"
    have op: "parse_step TLBrace (st, m) = Some (FObj [] # st, WantKeyOrClose)"
      using m by auto
    show "parse_run (tokens_of (PDict kvs) @ ts) (st, m) =
         (case push_value (json_form (PDict kvs)) st of None \<Rightarrow> None | Some s' \<Rightarrow> parse_run ts s')"
    proof (cases "kvs = []")
      case True
      then show ?thesis using op by simp
    next
      case False
      have "parse_run (join [TComma] (map (\<lambda>(k, v). TLit (PStr k) # TColon # tokens_of v) kvs)
                @ TRBrace # ts) (FObj [] # st, WantKeyOrClose)
           = parse_run (TRBrace # ts) (FObj ([] @ map (\<lambda>(k, v). (k, json_form v)) kvs) # st,
               WantCommaOrClose)"
        by (rule parse_run_entries [OF elems False _ d]) simp_all
      then show ?thesis using op by simp
    qed
  qed
qed (auto simp: value_parsed_def)

lemma parse_tokens_of:
  assumes "json_serializable v" and "distinct_keys v"
  shows "parse (tokens_of v) = Some (json_form v)"
  using value_parsedD [OF value_parsed_json_form [OF assms], of WantValue "[]" "[]"]
  by (simp add: parse_def)

lemma tapp_Inr: "tapp ts (Inr []) = Inr ts"
  by (induction ts) (simp_all add: tcons_def)

lemma json_loads_json_encode:
  assumes "json_serializable v" and "distinct_keys v"
  shows "json_loads (json_encode ind False 0 v) = Inr (json_form v)"
proof -
  have "lex (json_encode ind False 0 v @ []) = tapp (tokens_of v) (lex [])"
    by (rule lex_json_encode [OF assms(1)]) (simp add: num_end_def)
  then have "lex (json_encode ind False 0 v) = Inr (tokens_of v)"
    by (simp add: lex.simps tapp_Inr)
  then show ?thesis
    by (simp add: json_loads_def parse_tokens_of [OF assms])
qed

section \<open>Properties of the stores\<close>

subsection \<open>The JSON envelope\<close>



lemma json_form_tuple_free: "tuple_free v \<Longrightarrow> json_form v = v"
proof (induction v)
  case (PList xs)
  then show ?case by (simp add: list_all_iff map_idI)
next
  case (PDict kvs)
  have "map (\<lambda>(k, v). (k, json_form v)) kvs = kvs"
  proof (rule map_idI)
    fix x assume x: "x \<in> set kvs"
    obtain k v where kv: "x = (k, v)" by (cases x)
    have "tuple_free v" using PDict.prems x kv by (auto simp: list_all_iff)
    then have "json_form v = v" using PDict.IH [OF x, of v] kv by simp
    then show "(case x of (k, v) \<Rightarrow> (k, json_form v)) = x" by (simp add: kv)
  qed
  then show ?case by simp
qed simp_all

lemma py_eq_refl: "distinct_keys v \<Longrightarrow> py_eq v v"
proof (induction v)
  case (PList xs)
  then show ?case by (simp add: list_all_iff list_all2_same)
next
  case (PTuple xs)
  then show ?case by (simp add: list_all_iff list_all2_same)
next
  case (PDict kvs)
  have "list_all (\<lambda>(k, v). case map_of kvs k of None \<Rightarrow> False | Some w \<Rightarrow> py_eq v w) kvs"
    unfolding list_all_iff
  proof
    fix x assume x: "x \<in> set kvs"
    obtain k v where kv: "x = (k, v)" by (cases x)
    have m: "map_of kvs k = Some v" using PDict.prems x kv by simp
    have "distinct_keys v" using PDict.prems x kv by (auto simp: list_all_iff)
    then have "py_eq v v" using PDict.IH [OF x, of v] kv by simp
    then show "case x of (k, v) \<Rightarrow> (case map_of kvs k of None \<Rightarrow> False | Some w \<Rightarrow> py_eq v w)"
      using m by (simp add: kv)
  qed
  then show ?case by simp
qed simp_all





subsection \<open>Writing and reading\<close>

text \<open>
  C5. A value that is not JSON-serializable (one \<^verbatim>\<open>json.dumps\<close> raises for, so that
  \<^verbatim>\<open>serialize\<close> raises for it too) fails \<^verbatim>\<open>_validate_value\<close>, and \<^verbatim>\<open>set\<close> raises that
  error and leaves the store, its backend included, as it was.
\<close>

theorem Store_set_rejects_unserializable:
  assumes "\<not> json_serializable v"
  shows "(\<exists>e. json_dumps None False v = Inl e)
       \<and> (\<exists>e. serialize k v = Inl e)
       \<and> MetricStore_validate_value v
           = Inl (InvalidExpectationConfigurationError ''value is not JSON serializable'')
       \<and> Store_set st k v
           = (Inl (InvalidExpectationConfigurationError ''value is not JSON serializable''), st)"
  using assms
  by (simp add: json_dumps_def serialize_def MetricStore_validate_value_def
      ensure_json_serializable_def Store_set_def)

theorem Store_set_rejects_unserializable_witness:
  "MetricStore_validate_value (PDict [(''handle'', PObject ''BufferedReader'' ''<_io.BufferedReader>'')])
     = Inl (InvalidExpectationConfigurationError ''value is not JSON serializable'')
   \<and> Store_set \<lparr> store_backend_config = None, store_name = PNone,
                   store_backend = [([''run'', ''t0'', ''asset'', ''suite'', ''m'', ''id''], ''{}'')],
                   store_config = [] \<rparr>
        \<lparr> run_id = \<lparr> run_name = ''run'', run_time = ''t0'' \<rparr>, data_asset_name = ''asset'',
          expectation_suite_identifier = ''suite'', metric_name = ''m'', metric_kwargs_id = ''id'' \<rparr>
        (PDict [(''handle'', PObject ''BufferedReader'' ''<_io.BufferedReader>'')])
     = (Inl (InvalidExpectationConfigurationError ''value is not JSON serializable''),
        \<lparr> store_backend_config = None, store_name = PNone,
          store_backend = [([''run'', ''t0'', ''asset'', ''suite'', ''m'', ''id''], ''{}'')],
          store_config = [] \<rparr>)"
proof -
  have h: "\<not> json_serializable (PDict [(''handle'', PObject ''BufferedReader'' ''<_io.BufferedReader>'')])"
    by simp
  from Store_set_rejects_unserializable [OF h] show ?thesis by blast
qed

lemma tuple_to_key_key_to_tuple: "tuple_to_key (key_to_tuple k) = Inr k"
  by (simp add: tuple_to_key_def key_to_tuple_def RunIdentifier_to_tuple_def)

text \<open>
  C9. When the backend lists exactly two keys under a run identifier and their URNs
  differ, \<^verbatim>\<open>get_bind_params\<close> returns the mapping with exactly two entries: each key's URN
  with the value \<^verbatim>\<open>get\<close> returns for that key (and raises when \<^verbatim>\<open>get\<close> does).
\<close>

theorem get_bind_params_two_keys:
  assumes "backend_list_keys (store_backend st) (RunIdentifier_to_tuple r)
             = [key_to_tuple k1, key_to_tuple k2]"
    and "urn k1 \<noteq> urn k2"
  shows "get_bind_params urn st r =
           (case Store_get st k1 of
              Inl e \<Rightarrow> Inl e
            | Inr v1 \<Rightarrow>
                (case Store_get st k2 of
                   Inl e \<Rightarrow> Inl e
                 | Inr v2 \<Rightarrow> Inr [(urn k1, v1), (urn k2, v2)]))"
  using assms
  by (simp add: get_bind_params_def tuple_to_key_key_to_tuple split: sum.splits)

text \<open>
  An instance: three values written to an empty store, two of them under the run asked
  for.
\<close>

theorem get_bind_params_two_keys_witness:
  "get_bind_params example_urn example_store \<lparr> run_name = ''run1'', run_time = ''t0'' \<rparr>
     = Inr [(''urn:great_expectations:validations:suite:mean'', PInt 3),
            (''urn:great_expectations:validations:suite:sizes'', PList [PInt 4, PInt 2])]"
proof -
  have keys: "backend_list_keys (store_backend example_store)
                (RunIdentifier_to_tuple \<lparr> run_name = ''run1'', run_time = ''t0'' \<rparr>)
              = [key_to_tuple (example_key ''run1'' ''mean''), key_to_tuple (example_key ''run1'' ''sizes'')]"
    by code_simp
  have urns: "example_urn (example_key ''run1'' ''mean'') \<noteq> example_urn (example_key ''run1'' ''sizes'')"
    by code_simp
  have g1: "Store_get example_store (example_key ''run1'' ''mean'') = Inr (PInt 3)"
    by code_simp
  have g2: "Store_get example_store (example_key ''run1'' ''sizes'') = Inr (PList [PInt 4, PInt 2])"
    by code_simp
  have u1: "example_urn (example_key ''run1'' ''mean'') = ''urn:great_expectations:validations:suite:mean''"
    by code_simp
  have u2: "example_urn (example_key ''run1'' ''sizes'') = ''urn:great_expectations:validations:suite:sizes''"
    by code_simp
  show ?thesis
    using get_bind_params_two_keys [OF keys urns] by (simp add: g1 g2 u1 u2)
qed


subsection \<open>Construction and the caller's configuration\<close>

lemma dict_setitem_same: "map_of kvs k = Some v \<Longrightarrow> dict_setitem kvs k v = kvs"
  by (induction kvs) (auto split: if_splits)

lemma dict_get_present:
  "k \<in> set (map fst kvs) \<Longrightarrow> map_of kvs k = Some (dict_get kvs k d)"
  by (induction kvs) (auto simp: dict_get_def)

lemma dict_get_append_other:
  "k' \<noteq> k \<Longrightarrow> dict_get (kvs @ [(k', v)]) k d = dict_get kvs k d"
  by (induction kvs) (auto simp: dict_get_def)

lemma dict_get_absent: "k \<notin> set (map fst kvs) \<Longrightarrow> dict_get kvs k d = d"
  by (simp add: dict_get_def map_of_eq_None_iff [THEN iffD2])

lemma MetricStore_init_mapping:
  "snd (MetricStore_init env (Some sb) name)
     = Some (sb @ (if loads_database_backend env sb then database_defaults ''ge_metrics'' sb else []))"
  by (auto simp: MetricStore_init_def loads_database_backend_def database_defaults_def Let_def
      dict_setitem_new dict_get_absent
      split: sum.splits)

lemma loads_database_backend_append:
  "k \<noteq> ''module_name'' \<Longrightarrow> k \<noteq> ''class_name'' \<Longrightarrow>
     loads_database_backend env (sb @ [(k, v)]) = loads_database_backend env sb"
  by (simp add: loads_database_backend_def dict_get_append_other cong: sum.case_cong)

lemma snd_case_result:
  "snd (case p of (Inl e, sb2) \<Rightarrow> (Inl e, sb2) | (Inr st, sb2) \<Rightarrow> (Inr (f st sb2), sb2)) = snd p"
  by (cases p; cases "fst p") auto

lemma EvaluationParameterStore_init_snd:
  "snd (EvaluationParameterStore_init env (Some sb) name)
     = (if loads_database_backend env sb
        then snd (MetricStore_init env
                    (Some (dict_setitem sb ''table_name''
                             (dict_get sb ''table_name'' (PStr ''ge_evaluation_parameters''))))
                    name)
        else Some sb)"
proof (cases "verify_dynamic_loading_support env
             (dict_get sb ''module_name'' (PStr ''great_expectations.data_context.store''))")
  case (Inl e)
  then show ?thesis
    by (simp add: EvaluationParameterStore_init_def loads_database_backend_def)
next
  case v: (Inr u)
  show ?thesis
  proof (cases "load_class env (dict_get sb ''class_name'' (PStr ''InMemoryStoreBackend''))
                  (dict_get sb ''module_name'' (PStr ''great_expectations.data_context.store''))")
    case (Inl e)
    then show ?thesis
      using v by (simp add: EvaluationParameterStore_init_def loads_database_backend_def)
  next
    case (Inr cls)
    show ?thesis
    proof (cases "database_store_backend cls")
      case True
      then show ?thesis
        using v Inr
        by (simp add: EvaluationParameterStore_init_def loads_database_backend_def
            snd_case_result)
    next
      case False
      have "snd (MetricStore_init env (Some sb) name) = Some sb"
        using v Inr False by (simp add: MetricStore_init_def)
      then show ?thesis
        using v Inr False
        by (simp add: EvaluationParameterStore_init_def loads_database_backend_def
            snd_case_result)
    qed
  qed
qed

lemma EvaluationParameterStore_init_mapping:
  "snd (EvaluationParameterStore_init env (Some sb) name)
     = Some (sb @ (if loads_database_backend env sb
                   then database_defaults ''ge_evaluation_parameters'' sb else []))"
proof (cases "loads_database_backend env sb")
  case False
  then show ?thesis by (simp add: EvaluationParameterStore_init_snd)
next
  case True
  show ?thesis
  proof (cases "''table_name'' \<in> set (map fst sb)")
    case present: True
    have same: "dict_setitem sb ''table_name'' (dict_get sb ''table_name'' (PStr ''ge_evaluation_parameters'')) = sb"
      by (rule dict_setitem_same [OF dict_get_present [OF present]])
    show ?thesis
      using True present
      by (simp add: EvaluationParameterStore_init_snd same MetricStore_init_mapping
          database_defaults_def)
  next
    case absent: False
    let ?sb1 = "sb @ [(''table_name'', PStr ''ge_evaluation_parameters'')]"
    have new: "dict_setitem sb ''table_name'' (dict_get sb ''table_name'' (PStr ''ge_evaluation_parameters'')) = ?sb1"
      using absent by (simp add: dict_setitem_new dict_get_absent)
    have db1: "loads_database_backend env ?sb1"
      using True by (simp add: loads_database_backend_append)
    show ?thesis
      using True absent db1
      by (simp add: EvaluationParameterStore_init_snd new MetricStore_init_mapping
          database_defaults_def)
  qed
qed

text \<open>
  C10, as amended. Construction leaves every entry of the caller's \<^verbatim>\<open>store_backend\<close>
  mapping in place and unchanged. The mapping as a whole is unchanged unless its backend
  class loads and is a database backend; then the constructor adds to the caller's mapping
  the entries it lacks: \<^verbatim>\<open>table_name\<close> (\<^verbatim>\<open>ge_metrics\<close>, or \<^verbatim>\<open>ge_evaluation_parameters\<close> for
  an \<^verbatim>\<open>EvaluationParameterStore\<close>) and \<^verbatim>\<open>key_columns\<close> (the six key columns).
\<close>

theorem store_init_mapping:
  "snd (MetricStore_init env None name) = None
   \<and> snd (EvaluationParameterStore_init env None name) = None
   \<and> snd (MetricStore_init env (Some sb) name)
       = Some (sb @ (if loads_database_backend env sb then database_defaults ''ge_metrics'' sb else []))
   \<and> snd (EvaluationParameterStore_init env (Some sb) name)
       = Some (sb @ (if loads_database_backend env sb
                     then database_defaults ''ge_evaluation_parameters'' sb else []))"
  using MetricStore_init_mapping [of env sb name] EvaluationParameterStore_init_mapping [of env sb name]
  by (auto simp: MetricStore_init_def EvaluationParameterStore_init_def split: sum.splits prod.splits)

text \<open>
  C10, as stated, fails for a database backend: the mapping \<^verbatim>\<open>{"class_name":
  "DatabaseStoreBackend"}\<close> has three entries after either constructor has run.
\<close>

theorem MetricStore_init_changes_mapping:
  "snd (MetricStore_init ge_env (Some [(''class_name'', PStr ''DatabaseStoreBackend'')]) PNone)
     = Some [(''class_name'', PStr ''DatabaseStoreBackend''),
             (''table_name'', PStr ''ge_metrics''),
             (''key_columns'',
              PList [PStr ''run_name'', PStr ''run_time'', PStr ''data_asset_name'',
                     PStr ''expectation_suite_identifier'', PStr ''metric_name'',
                     PStr ''metric_kwargs_id''])]
   \<and> snd (EvaluationParameterStore_init ge_env (Some [(''class_name'', PStr ''DatabaseStoreBackend'')]) PNone)
     = Some [(''class_name'', PStr ''DatabaseStoreBackend''),
             (''table_name'', PStr ''ge_evaluation_parameters''),
             (''key_columns'',
              PList [PStr ''run_name'', PStr ''run_time'', PStr ''data_asset_name'',
                     PStr ''expectation_suite_identifier'', PStr ''metric_name'',
                     PStr ''metric_kwargs_id''])]"
  by code_simp


section \<open>Properties of the equality, the identifier and the hash of a \<^verbatim>\<open>Domain\<close>\<close>

subsection \<open>The canonical JSON is serializable\<close>

lemma json_form_properties:
  "json_serializable v \<Longrightarrow> json_serializable (json_form v) \<and> tuple_free (json_form v)"
proof (induction v)
  case (PList xs)
  then show ?case by (simp add: list_all_iff)
next
  case (PTuple xs)
  then show ?case by (simp add: list_all_iff)
next
  case (PDict kvs)
  then show ?case by (fastforce simp: list_all_iff)
qed simp_all

lemma distinct_keys_json_form: "distinct_keys v \<Longrightarrow> distinct_keys (json_form v)"
proof (induction v)
  case (PList xs)
  then show ?case by (simp add: list_all_iff)
next
  case (PTuple xs)
  then show ?case by (simp add: list_all_iff)
next
  case (PDict kvs)
  have keys: "map fst (map (\<lambda>(k, v). (k, json_form v)) kvs) = map fst kvs"
    by (induction kvs) auto
  have "list_all (\<lambda>(k, v). distinct_keys v) (map (\<lambda>(k, v). (k, json_form v)) kvs)"
    unfolding list_all_iff
  proof
    fix x assume "x \<in> set (map (\<lambda>(k, v). (k, json_form v)) kvs)"
    then obtain k v where kv: "(k, v) \<in> set kvs" and x: "x = (k, json_form v)" by auto
    have "distinct_keys v" using PDict.prems kv by (auto simp: list_all_iff)
    then have "distinct_keys (json_form v)" using PDict.IH [OF kv, of v] by simp
    then show "case x of (k, v) \<Rightarrow> distinct_keys v" by (simp add: x)
  qed
  moreover have "distinct (map fst kvs)" using PDict.prems by simp
  ultimately show ?case unfolding json_form.simps distinct_keys.simps keys by blast
qed simp_all

lemma map_err_keys:
  assumes "map_err f xs = Inr ys" and "\<And>x y. f x = Inr y \<Longrightarrow> fst y = fst x"
  shows "map fst ys = map fst xs"
  using assms(1)
proof (induction xs arbitrary: ys)
  case Nil
  then show ?case by simp
next
  case (Cons x xs)
  from Cons.prems obtain y ys' where y: "f x = Inr y" and ys': "map_err f xs = Inr ys'"
    and ys: "ys = y # ys'"
    by (auto split: sum.splits)
  show ?case using Cons.IH [OF ys'] assms(2) [OF y] ys by simp
qed

lemma map_err_all:
  assumes "map_err f xs = Inr ys" and "\<And>x y. x \<in> set xs \<Longrightarrow> f x = Inr y \<Longrightarrow> P y"
  shows "list_all P ys"
  using assms
proof (induction xs arbitrary: ys)
  case Nil
  then show ?case by simp
next
  case (Cons x xs)
  from Cons.prems(1) obtain y ys' where y: "f x = Inr y" and ys': "map_err f xs = Inr ys'"
    and ys: "ys = y # ys'"
    by (auto split: sum.splits)
  have "P y" using Cons.prems(2) [of x y] y by simp
  moreover have "list_all P ys'"
  proof (rule Cons.IH [OF ys'])
    fix x' y' assume "x' \<in> set xs" "f x' = Inr y'"
    then show "P y'" using Cons.prems(2) [of x' y'] by simp
  qed
  ultimately show ?case using ys by simp
qed

lemma semantic_type_value_PStr: "semantic_type_value v = Inr s \<Longrightarrow> \<exists>t. s = PStr t"
  by (cases v) (auto split: sum.splits)

lemma inferred_semantic_types_result:
  assumes "inferred_semantic_types v = Inr v'"
  shows "\<exists>cols cols'. v = PDict cols \<and> v' = PDict cols' \<and> map fst cols' = map fst cols
           \<and> list_all (\<lambda>(c, s). \<exists>t. s = PStr t) cols'"
proof -
  let ?f = "\<lambda>(column_name, semantic_type).
                           case semantic_type_value semantic_type of
                             Inl e \<Rightarrow> Inl e
                           | Inr s \<Rightarrow> Inr (column_name, s)"
  from assms obtain cols cols' where v: "v = PDict cols" and v': "v' = PDict cols'"
    and m: "map_err ?f cols = Inr cols'"
    by (auto simp: inferred_semantic_types_def split: pyval.splits sum.splits)
  have keys: "map fst cols' = map fst cols"
    by (rule map_err_keys [OF m]) (auto split: sum.splits)
  have "list_all (\<lambda>(c, s). \<exists>t. s = PStr t) cols'"
    by (rule map_err_all [OF m]) (auto split: sum.splits dest: semantic_type_value_PStr)
  with v v' keys show ?thesis by blast
qed

lemma strings_dict_properties:
  assumes "list_all (\<lambda>(c, s). \<exists>t. s = PStr t) cols"
  shows "json_serializable (PDict cols)" and "json_form (PDict cols) = PDict cols"
    and "distinct (map fst cols) \<Longrightarrow> distinct_keys (PDict cols)"
proof -
  show "json_serializable (PDict cols)" using assms by (auto simp: list_all_iff)
  have "map (\<lambda>(k, v). (k, json_form v)) cols = cols"
    by (rule map_idI) (use assms in \<open>auto simp: list_all_iff\<close>)
  then show "json_form (PDict cols) = PDict cols" by simp
  show "distinct (map fst cols) \<Longrightarrow> distinct_keys (PDict cols)"
    using assms by (auto simp: list_all_iff)
qed

lemma details_entry_result:
  assumes "details_entry (k, v) = Inr (k', j)"
  shows "k' = k \<and> json_serializable j \<and> tuple_free j \<and> (distinct_keys v \<longrightarrow> distinct_keys j)"
proof (cases "truthy v \<and> k = INFERRED_SEMANTIC_TYPE_KEY")
  case True
  with assms obtain v' where v': "inferred_semantic_types v = Inr v'"
    and j: "convert_to_json_serializable v' = Inr j" and k: "k' = k"
    by (auto simp: details_entry_def split: sum.splits)
  from inferred_semantic_types_result [OF v'] obtain cols cols' where
    c: "v = PDict cols" "v' = PDict cols'" "map fst cols' = map fst cols"
       "list_all (\<lambda>(c, s). \<exists>t. s = PStr t) cols'"
    by blast
  have jj: "j = json_form v'" and sv: "json_serializable v'"
    using j by (auto simp: convert_to_json_serializable_def split: if_splits)
  have "distinct_keys v \<longrightarrow> distinct_keys j"
    using strings_dict_properties [OF c(4)] c jj by simp
  then show ?thesis
    using k jj json_form_properties [OF sv] by simp
next
  case False
  with assms have j: "convert_to_json_serializable v = Inr j" and k: "k' = k"
    by (auto simp: details_entry_def split: sum.splits if_splits)
  have jj: "j = json_form v" and sv: "json_serializable v"
    using j by (auto simp: convert_to_json_serializable_def split: if_splits)
  show ?thesis
    using k jj json_form_properties [OF sv] distinct_keys_json_form [of v] by simp
qed

lemma to_json_dict_properties:
  assumes "to_json_dict d = Inr j"
  shows "json_serializable (PDict j)" and "tuple_free (PDict j)"
    and "Domain_distinct_keys d \<Longrightarrow> distinct_keys (PDict j)"
    and "j \<noteq> []"
    and "map_of (filter_properties_dict j) ''domain_type''
           = Some (PStr (MetricDomainTypes_value (domain_type d)))"
proof -
  from to_json_dict_Inr [OF assms] obtain dt where
    dt: "map_err details_entry (details d) = Inr dt"
    and kw: "json_serializable (PDict (domain_kwargs d))"
    and j: "j = filter_properties_dict
                  [(''rule_name'', PStr (rule_name d)),
                   (''domain_type'', PStr (MetricDomainTypes_value (domain_type d))),
                   (''domain_kwargs'', json_form (PDict (domain_kwargs d))),
                   (''details'', PDict dt)]"
    by blast
  have all: "list_all (\<lambda>(k, v). json_serializable v \<and> tuple_free v) dt"
    by (rule map_err_all [OF dt]) (use details_entry_result in \<open>auto\<close>)
  have keys: "map fst dt = map fst (details d)"
    by (rule map_err_keys [OF dt]) (use details_entry_result in \<open>auto\<close>)
  have kwp: "json_serializable (json_form (PDict (domain_kwargs d)))"
    "tuple_free (json_form (PDict (domain_kwargs d)))"
    using json_form_properties [OF kw] by simp_all
  have dts: "json_serializable (PDict dt)" "tuple_free (PDict dt)"
    using all by (auto simp: list_all_iff)
  show "json_serializable (PDict j)"
    using kwp(1) dts(1) unfolding j filter_properties_dict_def
    by (auto simp: list_all_iff)
  show "tuple_free (PDict j)"
    using kwp(2) dts(2) unfolding j filter_properties_dict_def
    by (auto simp: list_all_iff)
  show "j \<noteq> []"
    using MetricDomainTypes_value_nonempty [of "domain_type d"]
    by (simp add: j filter_properties_dict_def)
  show "map_of (filter_properties_dict j) ''domain_type''
           = Some (PStr (MetricDomainTypes_value (domain_type d)))"
    using MetricDomainTypes_value_nonempty [of "domain_type d"]
    by (simp add: j filter_properties_dict_def)
  show "distinct_keys (PDict j)" if wf: "Domain_distinct_keys d"
  proof -
    have dk: "distinct_keys (json_form (PDict (domain_kwargs d)))"
      using wf distinct_keys_json_form [of "PDict (domain_kwargs d)"]
      by (simp add: Domain_distinct_keys_def)
    have dd: "distinct (map fst dt)" using keys wf by (simp add: Domain_distinct_keys_def)
    have "list_all (\<lambda>(k, v). distinct_keys v) dt"
    proof (rule map_err_all [OF dt])
      fix x y assume x: "x \<in> set (details d)" and y: "details_entry x = Inr y"
      obtain k v where kv: "x = (k, v)" by (cases x)
      obtain k' v' where kv': "y = (k', v')" by (cases y)
      have "distinct_keys v" using wf x kv by (auto simp: Domain_distinct_keys_def list_all_iff)
      then show "case y of (k, v) \<Rightarrow> distinct_keys v"
        using details_entry_result [of k v k' v'] y kv kv' by simp
    qed
    then have "distinct_keys (PDict dt)" using dd by simp
    then show ?thesis
      using dk unfolding j filter_properties_dict_def
      by (auto simp: list_all_iff)
  qed
qed

subsection \<open>Equality of a \<^verbatim>\<open>Domain\<close> with a \<^verbatim>\<open>Domain\<close> and with a mapping\<close>

lemma json_encode_injective:
  assumes "json_encode ind False 0 a = json_encode ind False 0 b"
    and "json_serializable a" "distinct_keys a" "tuple_free a"
    and "json_serializable b" "distinct_keys b" "tuple_free b"
  shows "a = b"
proof -
  have "json_loads (json_encode ind False 0 a) = Inr (json_form a)"
    by (rule json_loads_json_encode [OF assms(2,3)])
  moreover have "json_loads (json_encode ind False 0 b) = Inr (json_form b)"
    by (rule json_loads_json_encode [OF assms(5,6)])
  ultimately have "json_form a = json_form b" using assms(1) by simp
  then show ?thesis
    using json_form_tuple_free [OF assms(4)] json_form_tuple_free [OF assms(7)] by simp
qed

lemma join_Cons_nonempty: "x \<noteq> [] \<Longrightarrow> hd (join sep (x # xs)) = hd x"
  by (cases xs) simp_all

lemma py_repr_dict_second: "\<exists>c rest. py_repr (PDict m) = CHR ''{'' # c # rest \<and> c \<noteq> CHR 0x0A"
proof (cases m)
  case Nil
  then show ?thesis by simp
next
  case (Cons kv kvs)
  obtain k v where kv: "kv = (k, v)" by (cases kv)
  let ?x = "py_repr_str k @ '': '' @ py_repr v"
  let ?xs = "map (\<lambda>(k, v). py_repr_str k @ '': '' @ py_repr v) kvs"
  obtain q r where q: "py_repr_str k = q # r" and qn: "q \<noteq> CHR 0x0A"
    by (auto simp: py_repr_str_def Let_def dquote_def squote_def)
  have ne: "?x \<noteq> []" using q by simp
  then obtain c rest where j: "join '', '' (?x # ?xs) = c # rest"
    by (cases "join '', '' (?x # ?xs)") (cases ?xs; simp)+
  have "c = q" using join_Cons_nonempty [OF ne, of "'', ''" ?xs] j q by simp
  then show ?thesis using j qn by (simp add: Cons kv)
qed

lemma json_encode_indent_dict:
  "kvs \<noteq> [] \<Longrightarrow> \<exists>rest. json_encode (Some n) sk lvl (PDict kvs) = CHR ''{'' # CHR 0x0A # rest"
  by (simp add: newline_indent_def)

lemma Domain_str_not_repr:
  assumes "Domain_str a = Inr s"
  shows "s \<noteq> py_str (PDict m)"
proof -
  from assms obtain j where j: "to_json_dict a = Inr j"
    and s: "json_dumps (Some 2) False (PDict j) = Inr s"
    by (auto simp: Domain_str_def split: sum.splits)
  have "j \<noteq> []" by (rule to_json_dict_properties(4) [OF j])
  then obtain rest where "json_encode (Some 2) False 0 (PDict j) = CHR ''{'' # CHR 0x0A # rest"
    using json_encode_indent_dict by blast
  then have "s = CHR ''{'' # CHR 0x0A # rest"
    using s by (auto simp: json_dumps_def split: if_splits)
  then show ?thesis using py_repr_dict_second [of m] by auto
qed

lemma Domain_str_Inr:
  "to_json_dict a = Inr j \<Longrightarrow> Domain_str a = Inr (json_encode (Some 2) False 0 (PDict j))"
  using to_json_dict_properties(1) [of a j] by (simp add: Domain_str_def json_dumps_def)

lemma Domain_items_not_equal:
  assumes "to_json_dict a = Inr ja"
  shows "\<not> py_eq (PDict (filter_properties_dict ja)) (PDict (filter_properties_dict (Domain_items b)))"
proof -
  have m: "map_of (filter_properties_dict (Domain_items b)) ''domain_type''
             = Some (PMetricDomainType (domain_type b))"
    by (simp add: Domain_items_def filter_properties_dict_def)
  have "map_of (filter_properties_dict ja) ''domain_type''
           = Some (PStr (MetricDomainTypes_value (domain_type a)))"
    by (rule to_json_dict_properties(5) [OF assms])
  then have mem: "(''domain_type'', PStr (MetricDomainTypes_value (domain_type a)))
               \<in> set (filter_properties_dict ja)"
    by (rule map_of_SomeD)
  let ?P = "\<lambda>(k, v). case map_of (filter_properties_dict (Domain_items b)) k of
                       None \<Rightarrow> False | Some w \<Rightarrow> py_eq v w"
  have "\<not> list_all ?P (filter_properties_dict ja)"
  proof
    assume "list_all ?P (filter_properties_dict ja)"
    then have "\<forall>x\<in>set (filter_properties_dict ja). ?P x" by (simp add: list_all_iff)
    from bspec [OF this mem] show False by (simp add: m)
  qed
  then show ?thesis by simp
qed

text \<open>
  C2. Let \<open>a\<close> be a \<^verbatim>\<open>Domain\<close> whose canonical JSON is \<open>ja\<close>. For every \<^verbatim>\<open>Domain\<close> \<open>b\<close> with
  canonical JSON \<open>jb\<close>, \<^verbatim>\<open>a == b\<close> holds exactly when \<open>ja\<close> and \<open>jb\<close> are equal as
  dictionaries. For every plain mapping \<open>m\<close>, \<^verbatim>\<open>a == m\<close> holds exactly when \<open>ja\<close> and \<open>m\<close>,
  both stripped of their falsy entries, are equal as dictionaries. The third test of
  \<^verbatim>\<open>__eq__\<close>, on the string forms, adds no equality in either case.
\<close>

theorem Domain_eq_iff:
  assumes "to_json_dict a = Inr ja" and "Domain_distinct_keys a"
  shows "(\<forall>b jb. to_json_dict b = Inr jb \<and> Domain_distinct_keys b \<longrightarrow>
            Domain_eq a (Other_Domain b) = Inr (py_eq (PDict ja) (PDict jb)))
       \<and> (\<forall>m. Domain_eq a (Other_value (PDict m))
                 = Inr (py_eq (PDict (filter_properties_dict ja))
                              (PDict (filter_properties_dict m))))"
proof (intro conjI allI impI)
  fix b jb assume b: "to_json_dict b = Inr jb \<and> Domain_distinct_keys b"
  then have jb: "to_json_dict b = Inr jb" and wb: "Domain_distinct_keys b" by simp_all
  show "Domain_eq a (Other_Domain b) = Inr (py_eq (PDict ja) (PDict jb))"
  proof (cases "py_eq (PDict ja) (PDict jb)")
    case True
    then show ?thesis
      using assms(1) jb by (simp add: Domain_eq_def operand_to_json_dict_def del: py_eq.simps)
  next
    case False
    have B: "\<not> py_eq (PDict (filter_properties_dict ja))
                    (PDict (filter_properties_dict (Domain_items b)))"
      by (rule Domain_items_not_equal [OF assms(1)])
    define sa where "sa = json_encode (Some 2) False 0 (PDict ja)"
    define sb where "sb = json_encode (Some 2) False 0 (PDict jb)"
    have stra: "Domain_str a = Inr sa" and strb: "Domain_str b = Inr sb"
      using Domain_str_Inr [OF assms(1)] Domain_str_Inr [OF jb] by (simp_all add: sa_def sb_def)
    have "sa \<noteq> sb"
    proof
      assume "sa = sb"
      then have "json_encode (Some 2) False 0 (PDict ja) = json_encode (Some 2) False 0 (PDict jb)"
        by (simp add: sa_def sb_def)
      then have "PDict ja = PDict jb"
        using to_json_dict_properties(1-3) [OF assms(1)] to_json_dict_properties(1-3) [OF jb]
          assms(2) wb
        by (intro json_encode_injective) simp_all
      then have "py_eq (PDict ja) (PDict jb)"
        using py_eq_refl [of "PDict ja"] to_json_dict_properties(3) [OF assms(1) assms(2)] by simp
      with False show False by simp
    qed
    then show ?thesis
      using False B assms(1) jb stra strb
      by (simp add: Domain_eq_def operand_to_json_dict_def operand_as_dict_def operand_str_def
          del: py_eq.simps)
  qed
next
  fix m
  define sa where "sa = json_encode (Some 2) False 0 (PDict ja)"
  have stra: "Domain_str a = Inr sa"
    using Domain_str_Inr [OF assms(1)] by (simp add: sa_def)
  have "sa \<noteq> py_str (PDict m)"
    by (rule Domain_str_not_repr [OF stra])
  then show "Domain_eq a (Other_value (PDict m))
          = Inr (py_eq (PDict (filter_properties_dict ja)) (PDict (filter_properties_dict m)))"
    using assms(1) stra
    by (simp add: Domain_eq_def operand_to_json_dict_def operand_as_dict_def operand_str_def
        del: py_str.simps py_repr.simps py_eq.simps split: bool.splits)
qed

text \<open>An instance: the same contents in another order, another rule name, and a mapping.\<close>

theorem Domain_eq_iff_witness:
  "Domain_eq example_domain_1 (Other_Domain example_domain_2) = Inr True
   \<and> Domain_eq example_domain_1
        (Other_Domain \<lparr> rule_name = ''r2'', domain_type = COLUMN_PAIR,
                         domain_kwargs = domain_kwargs example_domain_1, details = [] \<rparr>) = Inr False
   \<and> Domain_eq example_domain_1
        (Other_value (PDict ((''details'', PDict []) # rev example_json_1))) = Inr True"
proof -
  have h1: "to_json_dict example_domain_1 = Inr example_json_1" by code_simp
  have h2: "Domain_distinct_keys example_domain_1" by code_simp
  have b1: "to_json_dict example_domain_2
              = Inr [(''rule_name'', PStr ''r1''), (''domain_type'', PStr ''column_pair''),
                     (''domain_kwargs'', PDict (domain_kwargs example_domain_2))]
            \<and> Domain_distinct_keys example_domain_2"
    by code_simp
  have b2: "to_json_dict \<lparr> rule_name = ''r2'', domain_type = COLUMN_PAIR,
                         domain_kwargs = domain_kwargs example_domain_1, details = [] \<rparr>
              = Inr [(''rule_name'', PStr ''r2''), (''domain_type'', PStr ''column_pair''),
                     (''domain_kwargs'', PDict (domain_kwargs example_domain_1))]
            \<and> Domain_distinct_keys \<lparr> rule_name = ''r2'', domain_type = COLUMN_PAIR,
                         domain_kwargs = domain_kwargs example_domain_1, details = [] \<rparr>"
    by code_simp
  have e1: "py_eq (PDict example_json_1)
              (PDict [(''rule_name'', PStr ''r1''), (''domain_type'', PStr ''column_pair''),
                     (''domain_kwargs'', PDict (domain_kwargs example_domain_2))])"
    by code_simp
  have e2: "\<not> py_eq (PDict example_json_1)
              (PDict [(''rule_name'', PStr ''r2''), (''domain_type'', PStr ''column_pair''),
                     (''domain_kwargs'', PDict (domain_kwargs example_domain_1))])"
    by code_simp
  have e3: "py_eq (PDict (filter_properties_dict example_json_1))
              (PDict (filter_properties_dict ((''details'', PDict []) # rev example_json_1)))"
    by code_simp
  note main = Domain_eq_iff [OF h1 h2]
  have "Domain_eq example_domain_1 (Other_Domain example_domain_2) = Inr True"
    using main b1 e1 by (simp del: py_eq.simps)
  moreover have "Domain_eq example_domain_1
        (Other_Domain \<lparr> rule_name = ''r2'', domain_type = COLUMN_PAIR,
                         domain_kwargs = domain_kwargs example_domain_1, details = [] \<rparr>) = Inr False"
    using main b2 e2 by (simp del: py_eq.simps)
  moreover have "Domain_eq example_domain_1
        (Other_value (PDict ((''details'', PDict []) # rev example_json_1))) = Inr True"
    using main e3 by (simp del: py_eq.simps)
  ultimately show ?thesis by blast
qed

text \<open>
  The third test compares the string forms: a \<^verbatim>\<open>Domain\<close> equals the string that is its own
  string form, a right-hand side that is neither a \<^verbatim>\<open>Domain\<close> nor a mapping.
\<close>

lemma Domain_eq_string_form:
  assumes "to_json_dict a = Inr ja"
  shows "Domain_eq a (Other_value (PStr (json_encode (Some 2) False 0 (PDict ja)))) = Inr True"
  using Domain_str_Inr [OF assms] assms
  by (simp add: Domain_eq_def operand_to_json_dict_def operand_as_dict_def operand_str_def
      del: json_encode.simps)


subsection \<open>Sorting the keys at every level\<close>

lemma insort_key_map_values:
  "insort_key fst (case x of (k, v) \<Rightarrow> (k, g k v)) (map (\<lambda>(k, v). (k, g k v)) xs)
     = map (\<lambda>(k, v). (k, g k v)) (insort_key fst x xs)"
  by (induction xs) (auto split: prod.splits)

lemma sort_key_map_values:
  "sort_key fst (map (\<lambda>(k, v). (k, g k v)) xs) = map (\<lambda>(k, v). (k, g k v)) (sort_key fst xs)"
proof (induction xs)
  case Nil
  then show ?case by simp
next
  case (Cons x xs)
  then show ?case
    using insort_key_map_values [where x = x and g = g and xs = "sort_key fst xs"] by simp
qed

lemma sort_key_eq_Nil [simp]: "(sort_key f xs = []) = (xs = [])"
proof -
  have "length (sort_key f xs) = length xs" by (rule length_sort)
  then show ?thesis by (metis length_0_conv)
qed

lemma null_or_empty_sort_keys_deep [simp]: "null_or_empty (sort_keys_deep v) = null_or_empty v"
  by (cases v) simp_all

lemma filter_map_values:
  "filter (\<lambda>(k, v). \<not> null_or_empty v) (map (\<lambda>(k, v). (k, sort_keys_deep v)) ys)
     = map (\<lambda>(k, v). (k, sort_keys_deep v)) (filter (\<lambda>(k, v). \<not> null_or_empty v) ys)"
  by (induction ys) auto

lemma filter_map_sort_keys_deep:
  "filter (\<lambda>v. \<not> null_or_empty v) (map sort_keys_deep ys)
     = map sort_keys_deep (filter (\<lambda>v. \<not> null_or_empty v) ys)"
  by (induction ys) auto

lemma map_values_cong:
  assumes "\<And>k v. (k, v) \<in> set kvs \<Longrightarrow> f v = g v"
  shows "map (\<lambda>(k, v). (k, f v)) kvs = map (\<lambda>(k, v). (k, g v)) kvs"
  by (rule map_cong [OF refl]) (use assms in auto)

lemma sort_keys_deep_deep_filter:
  "sort_keys_deep (deep_filter_properties_iterable v)
     = deep_filter_properties_iterable (sort_keys_deep v)"
proof (induction v)
  case (PDict kvs)
  let ?P = "\<lambda>(k, v). \<not> null_or_empty v"
  let ?C = "\<lambda>(k, v). (k, sort_keys_deep v)"
  let ?F = "\<lambda>(k, v). (k, deep_filter_properties_iterable v)"
  have "map (\<lambda>(k, v). (k, sort_keys_deep (deep_filter_properties_iterable v))) kvs
        = map (\<lambda>(k, v). (k, deep_filter_properties_iterable (sort_keys_deep v))) kvs"
  proof (rule map_values_cong)
    fix k v assume kv: "(k, v) \<in> set kvs"
    show "sort_keys_deep (deep_filter_properties_iterable v)
            = deep_filter_properties_iterable (sort_keys_deep v)"
      by (rule PDict.IH [OF kv]) simp
  qed
  then have pointwise: "map ?C (map ?F kvs) = map ?F (map ?C kvs)"
    by (simp add: case_prod_unfold comp_def)
  have "sort_key fst (map ?C (filter ?P (map ?F kvs)))
          = sort_key fst (filter ?P (map ?C (map ?F kvs)))"
    by (simp only: filter_map_values)
  also have "\<dots> = sort_key fst (filter ?P (map ?F (map ?C kvs)))"
    by (simp only: pointwise)
  also have "\<dots> = filter ?P (sort_key fst (map ?F (map ?C kvs)))"
    by (simp only: filter_sort)
  also have "\<dots> = filter ?P (map ?F (sort_key fst (map ?C kvs)))"
    using sort_key_map_values [where g = "\<lambda>k v. deep_filter_properties_iterable v" and xs = "map ?C kvs"]
    by simp
  finally show ?case by simp
next
  case (PList xs)
  have "map sort_keys_deep (map deep_filter_properties_iterable xs)
          = map deep_filter_properties_iterable (map sort_keys_deep xs)"
    using PList by simp
  then show ?case by (simp add: filter_map_sort_keys_deep [symmetric] del: map_map)
next
  case (PTuple xs)
  have "map sort_keys_deep (map deep_filter_properties_iterable xs)
          = map deep_filter_properties_iterable (map sort_keys_deep xs)"
    using PTuple by simp
  then show ?case by (simp add: filter_map_sort_keys_deep [symmetric] del: map_map)
qed simp_all

lemma deep_filter_items_sort:
  "deep_filter_items (sort_key fst (map (\<lambda>(k, v). (k, sort_keys_deep v)) kvs))
     = sort_key fst (map (\<lambda>(k, v). (k, sort_keys_deep v)) (deep_filter_items kvs))"
  using sort_keys_deep_deep_filter [of "PDict kvs"]
  by (simp add: deep_filter_items_def)

lemma sort_keys_deep_convert_dictionaries:
  "sort_keys_deep (convert_dictionaries_to_domain_kwargs v)
     = convert_dictionaries_to_domain_kwargs (sort_keys_deep v)"
proof (induction v rule: convert_dictionaries_to_domain_kwargs.induct)
  case (1 kvs)
  let ?C = "\<lambda>(k, v). (k, sort_keys_deep v)"
  let ?G = "\<lambda>(k, v). (k, convert_dictionaries_to_domain_kwargs v)"
  have "map (\<lambda>(k, v). (k, sort_keys_deep (convert_dictionaries_to_domain_kwargs v))) (deep_filter_items kvs)
        = map (\<lambda>(k, v). (k, convert_dictionaries_to_domain_kwargs (sort_keys_deep v))) (deep_filter_items kvs)"
  proof (rule map_values_cong)
    fix k v assume kv: "(k, v) \<in> set (deep_filter_items kvs)"
    show "sort_keys_deep (convert_dictionaries_to_domain_kwargs v)
                     = convert_dictionaries_to_domain_kwargs (sort_keys_deep v)"
      using 1 kv by simp
  qed
  then have pointwise: "map ?C (map ?G (deep_filter_items kvs)) = map ?G (map ?C (deep_filter_items kvs))"
    by (simp add: case_prod_unfold comp_def)
  have "sort_keys_deep (convert_dictionaries_to_domain_kwargs (PDict kvs))
          = PDict (sort_key fst (map ?C (map ?G (deep_filter_items kvs))))"
    by simp
  also have "\<dots> = PDict (sort_key fst (map ?G (map ?C (deep_filter_items kvs))))"
    by (simp only: pointwise)
  also have "\<dots> = PDict (map ?G (sort_key fst (map ?C (deep_filter_items kvs))))"
    using sort_key_map_values [where g = "\<lambda>k v. convert_dictionaries_to_domain_kwargs v"
        and xs = "map ?C (deep_filter_items kvs)"]
    by simp
  also have "\<dots> = PDict (map ?G (deep_filter_items (sort_key fst (map ?C kvs))))"
    by (simp only: deep_filter_items_sort)
  also have "\<dots> = convert_dictionaries_to_domain_kwargs (sort_keys_deep (PDict kvs))"
    by simp
  finally show ?case .
qed simp_all

lemma sort_keys_deep_json_form:
  "sort_keys_deep (json_form v) = json_form (sort_keys_deep v)"
proof (induction v)
  case (PDict kvs)
  let ?C = "\<lambda>(k, v). (k, sort_keys_deep v)"
  let ?J = "\<lambda>(k, v). (k, json_form v)"
  have "map (\<lambda>(k, v). (k, sort_keys_deep (json_form v))) kvs
        = map (\<lambda>(k, v). (k, json_form (sort_keys_deep v))) kvs"
  proof (rule map_values_cong)
    fix k v assume kv: "(k, v) \<in> set kvs"
    show "sort_keys_deep (json_form v) = json_form (sort_keys_deep v)"
      by (rule PDict.IH [OF kv]) simp
  qed
  then have pointwise: "map ?C (map ?J kvs) = map ?J (map ?C kvs)"
    by (simp add: case_prod_unfold comp_def)
  have "sort_keys_deep (json_form (PDict kvs)) = PDict (sort_key fst (map ?C (map ?J kvs)))"
    by simp
  also have "\<dots> = PDict (sort_key fst (map ?J (map ?C kvs)))"
    by (simp only: pointwise)
  also have "\<dots> = PDict (map ?J (sort_key fst (map ?C kvs)))"
    using sort_key_map_values [where g = "\<lambda>k v. json_form v" and xs = "map ?C kvs"] by simp
  also have "\<dots> = json_form (sort_keys_deep (PDict kvs))"
    by simp
  finally show ?case .
qed simp_all

lemma json_serializable_sort_keys_deep:
  "json_serializable (sort_keys_deep v) = json_serializable v"
proof (induction v)
  case (PList xs)
  then show ?case by (simp add: list_all_iff)
next
  case (PTuple xs)
  then show ?case by (simp add: list_all_iff)
next
  case (PDict kvs)
  then show ?case by (fastforce simp: list_all_iff)
qed simp_all

lemma json_encode_sort_keys:
  "json_encode ind True lvl v = json_encode ind False lvl (sort_keys_deep v)"
proof (induction v arbitrary: lvl)
  case (PList xs)
  have "map (json_encode ind True (Suc lvl)) xs
          = map (json_encode ind False (Suc lvl)) (map sort_keys_deep xs)"
    using PList by simp
  then show ?case by (simp del: map_map)
next
  case (PTuple xs)
  have "map (json_encode ind True (Suc lvl)) xs
          = map (json_encode ind False (Suc lvl)) (map sort_keys_deep xs)"
    using PTuple by simp
  then show ?case by (simp del: map_map)
next
  case (PDict kvs)
  let ?C = "\<lambda>(k, v). (k, sort_keys_deep v)"
  let ?E = "\<lambda>sk. \<lambda>(k, v). encode_basestring_ascii k @ key_separator @ json_encode ind sk (Suc lvl) v"
  have s: "sort_key fst (map ?C kvs) = map ?C (sort_key fst kvs)"
    using sort_key_map_values [where g = "\<lambda>k v. sort_keys_deep v" and xs = kvs] by simp
  have "map (?E True) (sort_key fst kvs) = map (\<lambda>x. ?E False (?C x)) (sort_key fst kvs)"
  proof (rule map_cong [OF refl])
    fix x assume "x \<in> set (sort_key fst kvs)"
    then have x: "x \<in> set kvs" by simp
    obtain k v where kv: "x = (k, v)" by (cases x)
    have "json_encode ind True (Suc lvl) v = json_encode ind False (Suc lvl) (sort_keys_deep v)"
      by (rule PDict.IH [OF x]) (simp add: kv)
    then show "?E True x = ?E False (?C x)" by (simp add: kv)
  qed
  then have "map (?E True) (sort_key fst kvs) = map (?E False) (sort_key fst (map ?C kvs))"
    by (simp only: s map_map comp_def)
  then show ?case by simp
qed simp_all

lemma sort_keys_deep_cases:
  "sort_keys_deep a = PDict ys' \<Longrightarrow> \<exists>xs. a = PDict xs"
  "sort_keys_deep a = PList zs \<Longrightarrow> \<exists>xs. a = PList xs"
  "sort_keys_deep a = PTuple zs \<Longrightarrow> \<exists>xs. a = PTuple xs"
  by (cases a; simp)+

lemma sort_keys_deep_scalar:
  "sort_keys_deep b = PNone \<Longrightarrow> b = PNone"
  "sort_keys_deep b = PBool x \<Longrightarrow> b = PBool x"
  "sort_keys_deep b = PInt i \<Longrightarrow> b = PInt i"
  "sort_keys_deep b = PStr s \<Longrightarrow> b = PStr s"
  "sort_keys_deep b = PMetricDomainType m \<Longrightarrow> b = PMetricDomainType m"
  "sort_keys_deep b = PSemanticDomainType t \<Longrightarrow> b = PSemanticDomainType t"
  "sort_keys_deep b = PObject c d \<Longrightarrow> b = PObject c d"
  by (cases b; simp)+

lemma list_all2_py_eq:
  assumes "map sort_keys_deep xs = map sort_keys_deep ys"
    and "\<And>x y. x \<in> set xs \<Longrightarrow> y \<in> set ys \<Longrightarrow> sort_keys_deep x = sort_keys_deep y \<Longrightarrow> py_eq x y"
  shows "list_all2 py_eq xs ys"
  using assms
proof (induction xs arbitrary: ys)
  case Nil
  then show ?case by simp
next
  case (Cons x xs)
  then obtain y ys' where ys: "ys = y # ys'" by (cases ys) auto
  have "py_eq x y" using Cons.prems ys by simp
  moreover have "list_all2 py_eq xs ys'"
  proof (rule Cons.IH)
    show "map sort_keys_deep xs = map sort_keys_deep ys'" using Cons.prems(1) ys by simp
    fix x' y' assume "x' \<in> set xs" "y' \<in> set ys'" "sort_keys_deep x' = sort_keys_deep y'"
    then show "py_eq x' y'" using Cons.prems(2) [of x' y'] ys by simp
  qed
  ultimately show ?case using ys by simp
qed

lemma same_content_py_eq:
  "sort_keys_deep a = sort_keys_deep b \<Longrightarrow> distinct_keys a \<Longrightarrow> distinct_keys b \<Longrightarrow> py_eq a b"
proof (induction a arbitrary: b)
  case (PList xs)
  from PList.prems(1) obtain ys where b: "b = PList ys"
    using sort_keys_deep_cases(2) [of b "map sort_keys_deep xs"] by auto
  have "list_all2 py_eq xs ys"
  proof (rule list_all2_py_eq)
    show "map sort_keys_deep xs = map sort_keys_deep ys" using PList.prems(1) b by simp
    fix x y assume "x \<in> set xs" "y \<in> set ys" "sort_keys_deep x = sort_keys_deep y"
    then show "py_eq x y"
      using PList.IH [of x y] PList.prems(2,3) b by (simp add: list_all_iff)
  qed
  then show ?case by (simp add: b)
next
  case (PTuple xs)
  from PTuple.prems(1) obtain ys where b: "b = PTuple ys"
    using sort_keys_deep_cases(3) [of b "map sort_keys_deep xs"] by auto
  have "list_all2 py_eq xs ys"
  proof (rule list_all2_py_eq)
    show "map sort_keys_deep xs = map sort_keys_deep ys" using PTuple.prems(1) b by simp
    fix x y assume "x \<in> set xs" "y \<in> set ys" "sort_keys_deep x = sort_keys_deep y"
    then show "py_eq x y"
      using PTuple.IH [of x y] PTuple.prems(2,3) b by (simp add: list_all_iff)
  qed
  then show ?case by (simp add: b)
next
  case (PDict xs)
  let ?C = "\<lambda>(k, v). (k, sort_keys_deep v)"
  from PDict.prems(1) obtain ys where b: "b = PDict ys"
    using sort_keys_deep_cases(1) [of b "sort_key fst (map ?C xs)"] by auto
  have sorted_eq: "sort_key fst (map ?C xs) = sort_key fst (map ?C ys)"
    using PDict.prems(1) b by simp
  have "length (sort_key fst (map ?C xs)) = length (sort_key fst (map ?C ys))"
    by (simp only: sorted_eq)
  then have len: "length xs = length ys" by simp
  have "set (sort_key fst (map ?C xs)) = set (sort_key fst (map ?C ys))"
    by (simp only: sorted_eq)
  then have sets: "set (map ?C xs) = set (map ?C ys)" by (simp only: set_sort)
  have dy: "distinct (map fst ys)" using PDict.prems(3) b by simp
  have "list_all (\<lambda>(k, v). case map_of ys k of None \<Rightarrow> False | Some w \<Rightarrow> py_eq v w) xs"
    unfolding list_all_iff
  proof
    fix x assume x: "x \<in> set xs"
    obtain k v where kv: "x = (k, v)" by (cases x)
    have "(k, sort_keys_deep v) \<in> set (map ?C xs)" using x kv by force
    then have "(k, sort_keys_deep v) \<in> set (map ?C ys)" using sets by simp
    then obtain v' where y: "(k, v') \<in> set ys" and c: "sort_keys_deep v' = sort_keys_deep v"
      by auto
    have m: "map_of ys k = Some v'" using dy y by simp
    have "distinct_keys v" using PDict.prems(2) x kv by (auto simp: list_all_iff)
    moreover have "distinct_keys v'" using PDict.prems(3) b y by (auto simp: list_all_iff)
    ultimately have "py_eq v v'"
      using PDict.IH [OF x, of v v'] kv c by simp
    then show "case x of (k, v) \<Rightarrow> (case map_of ys k of None \<Rightarrow> False | Some w \<Rightarrow> py_eq v w)"
      using m by (simp add: kv)
  qed
  then show ?case using len by (simp add: b)
next
  case PNone
  then have "sort_keys_deep b = PNone" by simp
  then have "b = PNone" by (rule sort_keys_deep_scalar)
  then show ?case by simp
next
  case (PBool x)
  then have "sort_keys_deep b = PBool x" by simp
  then have "b = PBool x" by (rule sort_keys_deep_scalar)
  then show ?case by simp
next
  case (PInt x)
  then have "sort_keys_deep b = PInt x" by simp
  then have "b = PInt x" by (rule sort_keys_deep_scalar)
  then show ?case by simp
next
  case (PStr x)
  then have "sort_keys_deep b = PStr x" by simp
  then have "b = PStr x" by (rule sort_keys_deep_scalar)
  then show ?case by simp
next
  case (PMetricDomainType x)
  then have "sort_keys_deep b = PMetricDomainType x" by simp
  then have "b = PMetricDomainType x" by (rule sort_keys_deep_scalar)
  then show ?case by simp
next
  case (PSemanticDomainType x)
  then have "sort_keys_deep b = PSemanticDomainType x" by simp
  then have "b = PSemanticDomainType x" by (rule sort_keys_deep_scalar)
  then show ?case by simp
next
  case (PObject x1 x2)
  then have "sort_keys_deep b = PObject x1 x2" by simp
  then have "b = PObject x1 x2" by (rule sort_keys_deep_scalar)
  then show ?case by simp
qed

subsection \<open>Keyword arguments with the same contents\<close>

lemma map_fst_map_values: "map fst (map (\<lambda>(k, v). (k, f v)) kvs) = map fst kvs"
  by (induction kvs) auto

lemma distinct_keys_deep_filter:
  "distinct_keys v \<Longrightarrow> distinct_keys (deep_filter_properties_iterable v)"
proof (induction v)
  case (PList xs)
  then show ?case by (auto simp: list_all_iff)
next
  case (PTuple xs)
  then show ?case by (auto simp: list_all_iff)
next
  case (PDict kvs)
  let ?P = "\<lambda>(k, v). \<not> null_or_empty v"
  let ?F = "\<lambda>(k, v). (k, deep_filter_properties_iterable v)"
  have "distinct (map fst (map ?F kvs))"
    using PDict.prems by (simp only: map_fst_map_values) simp
  then have d: "distinct (map fst (filter ?P (map ?F kvs)))"
    by (rule distinct_map_filter)
  have "list_all (\<lambda>(k, v). distinct_keys v) (filter ?P (map ?F kvs))"
    unfolding list_all_iff
  proof
    fix x assume "x \<in> set (filter ?P (map ?F kvs))"
    then obtain k v where kv: "(k, v) \<in> set kvs" and x: "x = (k, deep_filter_properties_iterable v)"
      by auto
    have "distinct_keys v" using PDict.prems kv by (auto simp: list_all_iff)
    then have "distinct_keys (deep_filter_properties_iterable v)"
      using PDict.IH [OF kv, of v] by simp
    then show "case x of (k, v) \<Rightarrow> distinct_keys v" by (simp add: x)
  qed
  then show ?case using d by simp
qed simp_all

lemma distinct_keys_deep_filter_items:
  "distinct_keys (PDict kvs) \<Longrightarrow> distinct_keys (PDict (deep_filter_items kvs))"
  using distinct_keys_deep_filter [of "PDict kvs"] by (simp add: deep_filter_items_def)

lemma distinct_keys_convert_dictionaries:
  "distinct_keys v \<Longrightarrow> distinct_keys (convert_dictionaries_to_domain_kwargs v)"
proof (induction v rule: convert_dictionaries_to_domain_kwargs.induct)
  case (1 kvs)
  let ?G = "\<lambda>(k, v). (k, convert_dictionaries_to_domain_kwargs v)"
  have df: "distinct_keys (PDict (deep_filter_items kvs))"
    by (rule distinct_keys_deep_filter_items [OF "1.prems"])
  have d: "distinct (map fst (map ?G (deep_filter_items kvs)))"
    using df by (simp only: map_fst_map_values) simp
  have "list_all (\<lambda>(k, v). distinct_keys v) (map ?G (deep_filter_items kvs))"
    unfolding list_all_iff
  proof
    fix x assume "x \<in> set (map ?G (deep_filter_items kvs))"
    then obtain k v where kv: "(k, v) \<in> set (deep_filter_items kvs)"
      and x: "x = (k, convert_dictionaries_to_domain_kwargs v)"
      by auto
    have "distinct_keys v" using df kv by (auto simp: list_all_iff)
    then have "distinct_keys (convert_dictionaries_to_domain_kwargs v)"
      using "1.IH" kv by simp
    then show "case x of (k, v) \<Rightarrow> distinct_keys v" by (simp add: x)
  qed
  then show ?case using d by simp
qed simp_all

lemma Domain_init_Inr:
  assumes "Domain_init rn t (Some kw) dto = Inr d"
  shows "rule_name d = rn"
    and "details d = (case dto of None \<Rightarrow> [] | Some x \<Rightarrow> x)"
    and "PDict (domain_kwargs d) = convert_dictionaries_to_domain_kwargs (PDict kw)"
    and "\<exists>t'. domain_type d = t' \<and> (t = PStr (MetricDomainTypes_value t') \<or> t = PMetricDomainType t')"
proof -
  from assms obtain t' where
    d: "d = \<lparr> rule_name = rn, domain_type = t',
              domain_kwargs = (case convert_dictionaries_to_domain_kwargs (PDict kw) of
                                 PDict kvs \<Rightarrow> kvs | _ \<Rightarrow> []),
              details = (case dto of None \<Rightarrow> [] | Some x \<Rightarrow> x) \<rparr>"
    and t': "t = PStr (MetricDomainTypes_value t') \<or> t = PMetricDomainType t'"
    by (cases t)
       (auto simp: Domain_init_def Let_def split: sum.splits error.splits
          dest: MetricDomainTypes_call_Inr)
  show "rule_name d = rn" by (simp add: d)
  show "details d = (case dto of None \<Rightarrow> [] | Some x \<Rightarrow> x)" by (simp add: d)
  show "PDict (domain_kwargs d) = convert_dictionaries_to_domain_kwargs (PDict kw)"
    by (simp add: d)
  show "\<exists>t'. domain_type d = t' \<and> (t = PStr (MetricDomainTypes_value t') \<or> t = PMetricDomainType t')"
    using t' by (simp add: d)
qed

lemma MetricDomainTypes_value_inj:
  "MetricDomainTypes_value a = MetricDomainTypes_value b \<Longrightarrow> a = b"
  by (cases a; cases b) simp_all

lemma Domain_init_same_type:
  assumes "Domain_init rn t (Some kw1) dto = Inr d1" and "Domain_init rn t (Some kw2) dto = Inr d2"
  shows "domain_type d1 = domain_type d2"
  using Domain_init_Inr(4) [OF assms(1)] Domain_init_Inr(4) [OF assms(2)]
  by (auto dest: MetricDomainTypes_value_inj)

lemma IDDict_to_id_Inr:
  assumes "json_serializable (PDict j)"
  shows "IDDict_to_id digest j
           = Inr (digest (json_encode None False 0 (sort_keys_deep (json_form (PDict j)))))"
proof -
  have "json_serializable (json_form (PDict j))"
    using json_form_properties [OF assms] by simp
  then show ?thesis
    using assms
    by (simp only: IDDict_to_id_def convert_to_json_serializable_def json_dumps_def
        json_encode_sort_keys if_True sum.case)
qed

text \<open>
  C3. Two \<^verbatim>\<open>Domain\<close>s constructed from the same rule name, domain type and details, and
  from keyword arguments with the same contents up to the order of the keys at every
  level, have the same identifier and the same hash, and compare equal.
\<close>

theorem Domain_same_content:
  assumes "distinct_keys (PDict kw1)" and "distinct_keys (PDict kw2)"
    and "distinct_keys (PDict (case dto of None \<Rightarrow> [] | Some x \<Rightarrow> x))"
    and "same_content (PDict kw1) (PDict kw2)"
    and "Domain_init rn t (Some kw1) dto = Inr d1"
    and "Domain_init rn t (Some kw2) dto = Inr d2"
    and "to_json_dict d1 = Inr j1"
  shows "(\<exists>i. Domain_id digest d1 = Inr i \<and> Domain_id digest d2 = Inr i
            \<and> Domain_hash str_hash digest d1 = Inr (str_hash i)
            \<and> Domain_hash str_hash digest d2 = Inr (str_hash i))
       \<and> Domain_eq d1 (Other_Domain d2) = Inr True"
proof -
  note i1 = Domain_init_Inr [OF assms(5)] and i2 = Domain_init_Inr [OF assms(6)]
  have ty: "domain_type d1 = domain_type d2"
    by (rule Domain_init_same_type [OF assms(5,6)])
  have dts: "details d1 = details d2" using i1(2) i2(2) by simp
  have rn: "rule_name d1 = rule_name d2" using i1(1) i2(1) by simp
  \<comment> \<open>the cleaned keyword arguments have the same contents\<close>
  have K: "sort_keys_deep (PDict (domain_kwargs d1)) = sort_keys_deep (PDict (domain_kwargs d2))"
    using assms(4) unfolding same_content_def
    by (simp only: i1(3) i2(3) sort_keys_deep_convert_dictionaries)
  have w1: "Domain_distinct_keys d1"
    using distinct_keys_convert_dictionaries [OF assms(1)] assms(3)
    unfolding Domain_distinct_keys_def by (simp only: i1(2,3) simp_thms)
  have w2: "Domain_distinct_keys d2"
    using distinct_keys_convert_dictionaries [OF assms(2)] assms(3)
    unfolding Domain_distinct_keys_def by (simp only: i2(2,3) simp_thms)
  \<comment> \<open>the canonical JSON of the second Domain\<close>
  from to_json_dict_Inr [OF assms(7)] obtain dt where
    dt: "map_err details_entry (details d1) = Inr dt"
    and s1: "json_serializable (PDict (domain_kwargs d1))"
    and j1: "j1 = filter_properties_dict
                  [(''rule_name'', PStr (rule_name d1)),
                   (''domain_type'', PStr (MetricDomainTypes_value (domain_type d1))),
                   (''domain_kwargs'', json_form (PDict (domain_kwargs d1))),
                   (''details'', PDict dt)]"
    by blast
  have s2: "json_serializable (PDict (domain_kwargs d2))"
    using s1 json_serializable_sort_keys_deep [of "PDict (domain_kwargs d1)"]
      json_serializable_sort_keys_deep [of "PDict (domain_kwargs d2)"]
    by (simp only: K)
  define j2 where "j2 = filter_properties_dict
                  [(''rule_name'', PStr (rule_name d2)),
                   (''domain_type'', PStr (MetricDomainTypes_value (domain_type d2))),
                   (''domain_kwargs'', json_form (PDict (domain_kwargs d2))),
                   (''details'', PDict dt)]"
  have t2: "to_json_dict d2 = Inr j2"
    using dt s2
    by (simp add: to_json_dict_def DomainKwargs_to_json_dict_def convert_to_json_serializable_def
        j2_def dts [symmetric] del: json_serializable.simps json_form.simps)
  \<comment> \<open>the two canonical forms have the same contents\<close>
  define X1 where "X1 = json_form (PDict (domain_kwargs d1))"
  define X2 where "X2 = json_form (PDict (domain_kwargs d2))"
  have X: "sort_keys_deep X1 = sort_keys_deep X2"
    unfolding X1_def X2_def by (simp only: sort_keys_deep_json_form K)
  have ne: "null_or_empty X1 = null_or_empty X2"
    using null_or_empty_sort_keys_deep [of X1] null_or_empty_sort_keys_deep [of X2]
    by (simp only: X)
  have J: "sort_keys_deep (PDict j1) = sort_keys_deep (PDict j2)"
    using X ne
    unfolding j1 j2_def X1_def [symmetric] X2_def [symmetric] rn ty filter_properties_dict_def
    by (simp del: null_or_empty_sort_keys_deep)
  have dk1: "distinct_keys (PDict j1)" by (rule to_json_dict_properties(3) [OF assms(7) w1])
  have dk2: "distinct_keys (PDict j2)" by (rule to_json_dict_properties(3) [OF t2 w2])
  have eq: "py_eq (PDict j1) (PDict j2)"
    by (rule same_content_py_eq [OF J dk1 dk2])
  have "Domain_eq d1 (Other_Domain d2) = Inr True"
    using eq assms(7) t2
    by (simp add: Domain_eq_def operand_to_json_dict_def del: py_eq.simps)
  \<comment> \<open>the identifiers are digests of the same text\<close>
  moreover have id1: "Domain_id digest d1
          = Inr (digest (json_encode None False 0 (sort_keys_deep (json_form (PDict j1)))))"
    using IDDict_to_id_Inr [OF to_json_dict_properties(1) [OF assms(7)], of digest] assms(7)
    by (simp only: Domain_id_def sum.case)
  moreover have id2: "Domain_id digest d2
          = Inr (digest (json_encode None False 0 (sort_keys_deep (json_form (PDict j1)))))"
    using IDDict_to_id_Inr [OF to_json_dict_properties(1) [OF t2], of digest] t2
    by (simp only: Domain_id_def sum.case sort_keys_deep_json_form J)
  ultimately show ?thesis
    by (simp only: Domain_hash_def sum.case) blast
qed

text \<open>An instance, with the identity as digest and the length as hash of a string.\<close>

theorem Domain_same_content_witness:
  "Domain_init ''r1'' (PStr ''column_pair'') (Some example_kwargs_1) None = Inr example_domain_1
   \<and> Domain_init ''r1'' (PStr ''column_pair'') (Some example_kwargs_2) None = Inr example_domain_2
   \<and> (\<exists>i. Domain_id (\<lambda>s. s) example_domain_1 = Inr i \<and> Domain_id (\<lambda>s. s) example_domain_2 = Inr i
          \<and> Domain_hash (\<lambda>s. int (length s)) (\<lambda>s. s) example_domain_1 = Inr (int (length i))
          \<and> Domain_hash (\<lambda>s. int (length s)) (\<lambda>s. s) example_domain_2 = Inr (int (length i)))
   \<and> Domain_eq example_domain_1 (Other_Domain example_domain_2) = Inr True"
proof -
  have h1: "distinct_keys (PDict example_kwargs_1)" by code_simp
  have h2: "distinct_keys (PDict example_kwargs_2)" by code_simp
  have h3: "distinct_keys (PDict (case None of None \<Rightarrow> [] | Some x \<Rightarrow> x))" by simp
  have h4: "same_content (PDict example_kwargs_1) (PDict example_kwargs_2)" by code_simp
  have h5: "Domain_init ''r1'' (PStr ''column_pair'') (Some example_kwargs_1) None = Inr example_domain_1"
    by code_simp
  have h6: "Domain_init ''r1'' (PStr ''column_pair'') (Some example_kwargs_2) None = Inr example_domain_2"
    by code_simp
  have h7: "to_json_dict example_domain_1 = Inr example_json_1" by code_simp
  from Domain_same_content [OF h1 h2 h3 h4 h5 h6 h7, of "\<lambda>s. s" "\<lambda>s. int (length s)"] h5 h6
  show ?thesis by blast
qed

end
